theory Spec2Isabelle
  imports Main "HOL-Library.Word"
begin

section \<open>JavaScript values used by the sources\<close>

text \<open>
  A JavaScript string is a \<^typ>\<open>string\<close>; the model covers the ASCII characters (letter
  case and line terminators beyond ASCII are left out). A value that may be \<open>undefined\<close>
  is an \<^typ>\<open>'a option\<close>. An optional string is truthy when it is there and not empty.
\<close>

definition truthy :: "string option \<Rightarrow> bool" where
  "truthy v = (case v of None \<Rightarrow> False | Some s \<Rightarrow> s \<noteq> [])"


text \<open>\<open>haystack.includes(needle)\<close>.\<close>

fun str_includes :: "string \<Rightarrow> string \<Rightarrow> bool" where
  "str_includes [] needle = (needle = [])"
| "str_includes (c # cs) needle = (take (length needle) (c # cs) = needle \<or> str_includes cs needle)"

text \<open>The double quote.\<close>

definition quote :: char where
  "quote = CHR 0x22"
section \<open>The default callback port (utils.ts, calculateDefaultPort)\<close>

text \<open>
  \<open>parseInt(s, 16)\<close>: leading white space is skipped, one sign is read, a \<open>0x\<close> or \<open>0X\<close>
  prefix is skipped, and the longest prefix of hexadecimal digits is the value. With no
  digit the result is \<open>NaN\<close>, modelled as \<open>None\<close>.
\<close>

definition isStrWhiteSpaceChar :: "char \<Rightarrow> bool" where
  "isStrWhiteSpaceChar c = (of_char c \<in> {9, 10, 11, 12, 13, 32 :: nat})"

definition digitValue16 :: "char \<Rightarrow> nat option" where
  "digitValue16 c =
     (let n = (of_char c :: nat) in
      if 48 \<le> n \<and> n \<le> 57 then Some (n - 48)
      else if 97 \<le> n \<and> n \<le> 102 then Some (n - 87)
      else if 65 \<le> n \<and> n \<le> 70 then Some (n - 55)
      else None)"

definition isDigit16 :: "char \<Rightarrow> bool" where
  "isDigit16 c = (digitValue16 c \<noteq> None)"

definition digitsValue16 :: "string \<Rightarrow> nat" where
  "digitsValue16 Z = foldl (\<lambda>a c. 16 * a + (case digitValue16 c of Some v \<Rightarrow> v | None \<Rightarrow> 0)) 0 Z"

definition parseInt16 :: "string \<Rightarrow> int option" where
  "parseInt16 inputString =
     (let S = dropWhile isStrWhiteSpaceChar inputString;
          sign = (if take 1 S = ''-'' then - 1 else 1 :: int);
          S1 = (if take 1 S = ''-'' \<or> take 1 S = ''+'' then drop 1 S else S);
          S2 = (if take 2 S1 = ''0x'' \<or> take 2 S1 = ''0X'' then drop 2 S1 else S1);
          Z = takeWhile isDigit16 S2
      in if Z = [] then None else Some (sign * int (digitsValue16 Z)))"

text \<open>The remainder operator \<open>%\<close> on integers: the result has the sign of the dividend.\<close>

definition js_rem :: "int \<Rightarrow> int \<Rightarrow> int" where
  "js_rem a b = sgn a * (\<bar>a\<bar> mod \<bar>b\<bar>)"

text \<open>
  \<^verbatim>\<open>const offset = parseInt(serverUrlHash.substring(0, 4), 16)\<close>
  \<^verbatim>\<open>return 3335 + (offset % 45816)\<close>
  Arithmetic on \<open>NaN\<close> is \<open>NaN\<close>.
\<close>

definition calculateDefaultPort :: "string \<Rightarrow> int option" where
  "calculateDefaultPort serverUrlHash =
     (case parseInt16 (take 4 serverUrlHash) of
        None \<Rightarrow> None
      | Some offset \<Rightarrow> Some (3335 + js_rem offset 45816))"

text \<open>
  A server fingerprint is the lowercase hexadecimal rendering of a 128-bit digest:
  32 characters of the alphabet \<open>0123456789abcdef\<close>. The value of a hexadecimal digit is
  its position in that alphabet, and the first 16 bits of the digest are the number written
  by the first four digits.
\<close>

definition hexAlphabet :: string where
  "hexAlphabet = ''0123456789abcdef''"

definition isFingerprint :: "string \<Rightarrow> bool" where
  "isFingerprint h = (length h = 32 \<and> list_all (\<lambda>c. c \<in> set hexAlphabet) h)"

definition nibble :: "char \<Rightarrow> nat" where
  "nibble c = length (takeWhile (\<lambda>d. d \<noteq> c) hexAlphabet)"

definition first16bits :: "string \<Rightarrow> nat" where
  "first16bits h = 4096 * nibble (h ! 0) + 256 * nibble (h ! 1) + 16 * nibble (h ! 2) + nibble (h ! 3)"

text \<open>The digest itself as a machine word, and its rendering by \<open>digest('hex')\<close>.\<close>

definition hexDigest :: "128 word \<Rightarrow> string" where
  "hexDigest d = map (\<lambda>i. hexAlphabet ! unat (take_bit 4 (drop_bit (4 * (31 - i)) d))) [0..<32]"

section \<open>The tool filter (utils.ts, patternToRegex and shouldIncludeTool)\<close>

subsection \<open>String operations of the glob conversion\<close>

text \<open>\<open>\w\<close> is a letter, a digit or the underscore; \<open>\W\<close> is any other character.\<close>

definition isWordChar :: "char \<Rightarrow> bool" where
  "isWordChar c =
     (let n = (of_char c :: nat) in
      (48 \<le> n \<and> n \<le> 57) \<or> (65 \<le> n \<and> n \<le> 90) \<or> (97 \<le> n \<and> n \<le> 122) \<or> n = 95)"

text \<open>\<open>s.split(sep)\<close> for a one-character separator: it always returns at least one part.\<close>

fun split_on :: "char \<Rightarrow> string \<Rightarrow> string list" where
  "split_on sep [] = [[]]"
| "split_on sep (c # cs) =
     (if c = sep then [] # split_on sep cs
      else (case split_on sep cs of [] \<Rightarrow> [[c]] | p # ps \<Rightarrow> (c # p) # ps))"

text \<open>\<open>parts.join(glue)\<close>.\<close>

fun join :: "string \<Rightarrow> string list \<Rightarrow> string" where
  "join glue [] = []"
| "join glue [p] = p"
| "join glue (p # q # ps) = p @ glue @ join glue (q # ps)"

text \<open>\<^verbatim>\<open>part.replace(/\W/g, '\\$&')\<close>: a backslash goes before every non-word character.\<close>

definition backslash :: char where
  "backslash = CHR 0x5C"

definition escapePart :: "string \<Rightarrow> string" where
  "escapePart part = concat (map (\<lambda>c. if isWordChar c then [c] else [backslash, c]) part)"

text \<open>
  \<^verbatim>\<open>const parts = pattern.split('*')\<close>
  \<^verbatim>\<open>const escapedParts = parts.map((part) => part.replace(/\W/g, '\\$&'))\<close>
  \<^verbatim>\<open>const regexPattern = escapedParts.join('.*')\<close>
  The text handed to the \<open>RegExp\<close> constructor is \<^verbatim>\<open>`^${regexPattern}$`\<close>.
\<close>

definition regexSource :: "string \<Rightarrow> string" where
  "regexSource pattern =
     ''^'' @ join ''.*'' (map escapePart (split_on CHR ''*'' pattern)) @ ''$''"

subsection \<open>The regular expressions the conversion can build\<close>

text \<open>
  The \<open>RegExp\<close> constructor and \<open>test\<close> are the language's own. They are modelled for
  the sources made of \<open>^\<close>, \<open>$\<close>, \<open>.\<close>, word characters, a backslash before a non-word
  character (an identity escape: the character itself) and \<open>*\<close> after a one-character
  atom. \<open>RegExp_new\<close> is \<open>None\<close> where the constructor throws a \<open>SyntaxError\<close>, and also
  for a source outside this fragment.
\<close>

datatype node = Start | End | Lit char | Dot | Star node

fun RegExp_new :: "string \<Rightarrow> node list option" where
  "RegExp_new [] = Some []"
| "RegExp_new (c # cs) =
     (if c = CHR ''^'' then map_option ((#) Start) (RegExp_new cs)
      else if c = CHR ''$'' then map_option ((#) End) (RegExp_new cs)
      else if c = backslash then
        (case cs of
           [] \<Rightarrow> None
         | e # r \<Rightarrow>
             if isWordChar e then None
             else (case r of
                     [] \<Rightarrow> Some [Lit e]
                   | q # r' \<Rightarrow>
                       if q = CHR ''*'' then map_option ((#) (Star (Lit e))) (RegExp_new r')
                       else map_option ((#) (Lit e)) (RegExp_new (q # r'))))
      else if c = CHR ''.'' \<or> isWordChar c then
        (let a = (if c = CHR ''.'' then Dot else Lit c) in
         case cs of
           [] \<Rightarrow> Some [a]
         | q # r' \<Rightarrow>
             if q = CHR ''*'' then map_option ((#) (Star a)) (RegExp_new r')
             else map_option ((#) a) (RegExp_new (q # r')))
      else None)"

text \<open>
  With the flag \<open>i\<close> two characters are compared after canonicalisation (upper case).
  Without the flag \<open>s\<close> the dot matches every character but a line terminator.
\<close>

definition canonicalize :: "char \<Rightarrow> char" where
  "canonicalize c =
     (let n = (of_char c :: nat) in if 97 \<le> n \<and> n \<le> 122 then char_of (n - 32) else c)"

definition isLineTerminator :: "char \<Rightarrow> bool" where
  "isLineTerminator c = (of_char c \<in> {10, 13 :: nat})"

fun atomMatches :: "node \<Rightarrow> char \<Rightarrow> bool" where
  "atomMatches (Lit c) x = (canonicalize x = canonicalize c)"
| "atomMatches Dot x = (\<not> isLineTerminator x)"
| "atomMatches _ x = False"

text \<open>
  A backtracking matcher: \<open>matchHere nodes atStart s\<close> says whether \<open>nodes\<close> match a
  prefix of the remaining input \<open>s\<close>; \<open>atStart\<close> holds at index 0 of the input.
\<close>

fun matchHere :: "node list \<Rightarrow> bool \<Rightarrow> string \<Rightarrow> bool" where
  "matchHere [] atStart s = True"
| "matchHere (Start # r) atStart s = (atStart \<and> matchHere r atStart s)"
| "matchHere (End # r) atStart s = (s = [] \<and> matchHere r atStart s)"
| "matchHere (Star a # r) atStart s =
     (matchHere r atStart s \<or>
      (case s of [] \<Rightarrow> False | x # xs \<Rightarrow> atomMatches a x \<and> matchHere (Star a # r) False xs))"
| "matchHere (a # r) atStart s =
     (case s of [] \<Rightarrow> False | x # xs \<Rightarrow> atomMatches a x \<and> matchHere r False xs)"

text \<open>\<open>regex.test(s)\<close> for a regular expression without the flags \<open>g\<close> and \<open>y\<close>: a match may start at any index.\<close>

definition RegExp_test :: "node list \<Rightarrow> string \<Rightarrow> bool" where
  "RegExp_test nodes s = list_ex (\<lambda>i. matchHere nodes (i = 0) (drop i s)) [0..<Suc (length s)]"

subsection \<open>patternToRegex and shouldIncludeTool\<close>

definition patternToRegex :: "string \<Rightarrow> node list option" where
  "patternToRegex pattern = RegExp_new (regexSource pattern)"

text \<open>
  The loop of \<open>shouldIncludeTool\<close> over the patterns. The result is \<open>None\<close> when the
  \<open>RegExp\<close> constructor throws.
\<close>

fun ignoreLoop :: "string list \<Rightarrow> string \<Rightarrow> bool option" where
  "ignoreLoop [] toolName = Some True"
| "ignoreLoop (pattern # rest) toolName =
     (case patternToRegex pattern of
        None \<Rightarrow> None
      | Some regex \<Rightarrow> if RegExp_test regex toolName then Some False else ignoreLoop rest toolName)"

text \<open>
  \<^verbatim>\<open>if (!ignorePatterns || ignorePatterns.length === 0) return true\<close>
  A missing pattern list is \<open>None\<close>.
\<close>

definition shouldIncludeTool :: "string list option \<Rightarrow> string \<Rightarrow> bool option" where
  "shouldIncludeTool ignorePatterns toolName =
     (case ignorePatterns of
        None \<Rightarrow> Some True
      | Some ps \<Rightarrow> if length ps = 0 then Some True else ignoreLoop ps toolName)"

subsection \<open>The filter in the words of the specification\<close>

text \<open>
  A pattern is its parts between the asterisks. A name matches when it is, letter case
  aside, the parts in their order with a gap between each two neighbours; a gap is any
  text without a line terminator.
\<close>

fun interleave :: "string list \<Rightarrow> string list \<Rightarrow> string" where
  "interleave [] gaps = []"
| "interleave [p] gaps = p"
| "interleave (p # q # ps) [] = p @ interleave (q # ps) []"
| "interleave (p # q # ps) (g # gs) = p @ g @ interleave (q # ps) gs"

text \<open>The nodes of the regular expression that stands for the parts of a pattern.\<close>

fun globNodes :: "string list \<Rightarrow> node list" where
  "globNodes [] = []"
| "globNodes [p] = map Lit p"
| "globNodes (p # q # ps) = map Lit p @ Star Dot # globNodes (q # ps)"

definition startFree :: "node list \<Rightarrow> bool" where
  "startFree ns = (Start \<notin> set ns)"

text \<open>The next character of a source is not a quantifier.\<close>

definition noStarAhead :: "string \<Rightarrow> bool" where
  "noStarAhead t = (case t of [] \<Rightarrow> True | q # _ \<Rightarrow> q \<noteq> CHR ''*'')"

text \<open>The specification's match on the parts of a pattern.\<close>

definition partsMatch :: "string list \<Rightarrow> string \<Rightarrow> bool" where
  "partsMatch parts name =
     (\<exists>gaps. length gaps + 1 = length parts \<and>
        (\<forall>g \<in> set gaps. \<forall>c \<in> set g. \<not> isLineTerminator c) \<and>
        map canonicalize name = map canonicalize (interleave parts gaps))"

definition globMatches :: "string \<Rightarrow> string \<Rightarrow> bool" where
  "globMatches pattern name = partsMatch (split_on CHR ''*'' pattern) name"

text \<open>\<^verbatim>\<open>patternToRegex(pattern).test(toolName)\<close>, false when the constructor throws.\<close>

definition patternMatches :: "string \<Rightarrow> string \<Rightarrow> bool" where
  "patternMatches pattern toolName =
     (case patternToRegex pattern of None \<Rightarrow> False | Some regex \<Rightarrow> RegExp_test regex toolName)"

section \<open>The proxy router (utils.ts, createMessageTransformer and mcpProxy)\<close>

subsection \<open>Messages\<close>

text \<open>
  A JSON-RPC id is a number, a string or \<open>null\<close>; a message without the member \<open>id\<close> has
  \<open>None\<close>. \<open>!messageId\<close> holds for a missing id, \<open>null\<close>, \<open>0\<close> and the empty string.
\<close>

datatype jid = NullId | NumId int | StrId string

fun truthyId :: "jid option \<Rightarrow> bool" where
  "truthyId None = False"
| "truthyId (Some NullId) = False"
| "truthyId (Some (NumId n)) = (n \<noteq> 0)"
| "truthyId (Some (StrId s)) = (s \<noteq> [])"

text \<open>
  A message is the JSON object read from a transport. The record holds the members the
  proxy reads: \<open>id\<close>, \<open>method\<close>, \<open>params\<close> with \<open>params.name\<close> and
  \<open>params.clientInfo\<close>, and \<open>result\<close> with \<open>result.tools\<close>; what else the object has is
  carried along in the fields named \<open>Other\<close>. A member that is absent is \<open>None\<close>. The
  name of a tool is a string, as the protocol's schema has it.
\<close>

record clientInfo =
  clientName :: "string option"
  clientOther :: string

record params =
  paramsName :: "string option"
  paramsClientInfo :: "clientInfo option"
  paramsOther :: string

record tool =
  tool_name :: string
  tool_other :: string

record result =
  resultTools :: "tool list option"
  resultOther :: string

record message =
  msgId :: "jid option"
  msgMethod :: "string option"
  msgParams :: "params option"
  msgResult :: "result option"
  msgOther :: string

text \<open>The error response the proxy builds for a blocked call.\<close>

record errorResponse =
  jsonrpc :: string
  errId :: "jid option"
  errCode :: int
  errMessage :: string

datatype clientBound = Relayed message | Refused errorResponse

datatype exn = TypeError | SyntaxError

datatype intercepted = MESSAGE_BLOCKED | Passed message

text \<open>
  The state of one proxy session: the table \<open>pendingRequests\<close>, the two flags of the close
  handlers, and what the handlers have done so far: the messages handed to
  \<open>transportToServer.send\<close> and to \<open>transportToClient.send\<close> in their order, the
  number of calls of each transport's \<open>close\<close>, and the exceptions that left a handler.
\<close>

record proxy =
  pendingRequests :: "jid \<rightharpoonup> message"
  transportToClientClosed :: bool
  transportToServerClosed :: bool
  sentToServer :: "message list"
  sentToClient :: "clientBound list"
  serverCloseCalls :: nat
  clientCloseCalls :: nat
  thrown :: "exn list"

definition newProxy :: proxy where
  "newProxy = \<lparr>pendingRequests = Map.empty, transportToClientClosed = False,
     transportToServerClosed = False, sentToServer = [], sentToClient = [],
     serverCloseCalls = 0, clientCloseCalls = 0, thrown = []\<rparr>"

subsection \<open>The two transformers of mcpProxy\<close>

text \<open>
  \<^verbatim>\<open>if (request.method === 'tools/call' && request.params?.name)\<close>: the name is read when
  \<open>params\<close> is present and the name is truthy.
\<close>

definition calledTool :: "message \<Rightarrow> string option" where
  "calledTool request =
     (if msgMethod request = Some ''tools/call'' then
        (case msgParams request of
           None \<Rightarrow> None
         | Some p \<Rightarrow> if truthy (paramsName p) then paramsName p else None)
      else None)"

definition notAvailable :: "jid option \<Rightarrow> string \<Rightarrow> errorResponse" where
  "notAvailable requestId toolName =
     \<lparr>jsonrpc = ''2.0'', errId = requestId, errCode = - 32603,
      errMessage = ''Tool '' @ [CHR 0x22] @ toolName @ [CHR 0x22] @ '' is not available''\<rparr>"

text \<open>
  \<open>transformRequestFunction\<close>: a call of an ignored tool sends the error response to the
  client and returns \<open>MESSAGE_BLOCKED\<close>; every other request is returned as it is. The
  result is \<open>Inl\<close> when \<open>shouldIncludeTool\<close> throws.
\<close>

definition transformRequestFunction ::
  "string list \<Rightarrow> proxy \<Rightarrow> message \<Rightarrow> exn + (proxy \<times> intercepted)" where
  "transformRequestFunction ignoredTools st request =
     (case calledTool request of
        None \<Rightarrow> Inr (st, Passed request)
      | Some toolName \<Rightarrow>
          (case shouldIncludeTool (Some ignoredTools) toolName of
             None \<Rightarrow> Inl SyntaxError
           | Some True \<Rightarrow> Inr (st, Passed request)
           | Some False \<Rightarrow>
               Inr (st\<lparr>sentToClient := sentToClient st @ [Refused (notAvailable (msgId request) toolName)]\<rparr>,
                    MESSAGE_BLOCKED)))"

text \<open>The filter of \<open>result.tools\<close>; \<open>Inl\<close> when \<open>shouldIncludeTool\<close> throws.\<close>

fun filterTools :: "string list \<Rightarrow> tool list \<Rightarrow> exn + tool list" where
  "filterTools ignoredTools [] = Inr []"
| "filterTools ignoredTools (t # ts) =
     (case shouldIncludeTool (Some ignoredTools) (tool_name t) of
        None \<Rightarrow> Inl SyntaxError
      | Some keep \<Rightarrow>
          (case filterTools ignoredTools ts of
             Inl e \<Rightarrow> Inl e
           | Inr kept \<Rightarrow> Inr (if keep then t # kept else kept)))"

text \<open>
  \<open>transformResponseFunction\<close>: \<open>req.method\<close> is a \<open>TypeError\<close> when no request was
  recorded under the id, and so is \<open>res.result.tools.filter\<close> when the response to a
  \<open>tools/list\<close> has no \<open>result\<close> or no \<open>tools\<close>.
\<close>

definition transformResponseFunction ::
  "string list \<Rightarrow> message option \<Rightarrow> message \<Rightarrow> exn + message" where
  "transformResponseFunction ignoredTools req res =
     (case req of
        None \<Rightarrow> Inl TypeError
      | Some request \<Rightarrow>
          if msgMethod request = Some ''tools/list'' then
            (case msgResult res of
               None \<Rightarrow> Inl TypeError
             | Some r \<Rightarrow>
                 (case resultTools r of
                    None \<Rightarrow> Inl TypeError
                  | Some ts \<Rightarrow>
                      (case filterTools ignoredTools ts of
                         Inl e \<Rightarrow> Inl e
                       | Inr kept \<Rightarrow> Inr (res\<lparr>msgResult := Some (r\<lparr>resultTools := Some kept\<rparr>)\<rparr>))))
          else Inr res)"

subsection \<open>createMessageTransformer\<close>

text \<open>
  \<^verbatim>\<open>const messageId = message.id\<close>
  \<^verbatim>\<open>if (!messageId) return message\<close>
  \<^verbatim>\<open>pendingRequests.set(messageId, message)\<close>
  \<^verbatim>\<open>return transformRequestFunction?.(message) ?? message\<close>
  The request is recorded before the transformer runs, and stays recorded when the
  transformer blocks it or throws.
\<close>

definition interceptRequest ::
  "string list \<Rightarrow> proxy \<Rightarrow> message \<Rightarrow> proxy \<times> (exn + intercepted)" where
  "interceptRequest ignoredTools st message =
     (case msgId message of
        None \<Rightarrow> (st, Inr (Passed message))
      | Some messageId \<Rightarrow>
          if \<not> truthyId (Some messageId) then (st, Inr (Passed message))
          else
            (let st1 = st\<lparr>pendingRequests := (pendingRequests st)(messageId \<mapsto> message)\<rparr> in
             case transformRequestFunction ignoredTools st1 message of
               Inl e \<Rightarrow> (st1, Inl e)
             | Inr (st2, r) \<Rightarrow> (st2, Inr r)))"

text \<open>
  \<^verbatim>\<open>const messageId = message.id\<close>
  \<^verbatim>\<open>if (!messageId) return message\<close>
  \<^verbatim>\<open>const originalRequest = pendingRequests.get(messageId)\<close>
  \<^verbatim>\<open>pendingRequests.delete(messageId)\<close>
  \<^verbatim>\<open>return transformResponseFunction?.(originalRequest, message) ?? message\<close>
\<close>

definition interceptResponse ::
  "string list \<Rightarrow> proxy \<Rightarrow> message \<Rightarrow> proxy \<times> (exn + message)" where
  "interceptResponse ignoredTools st message =
     (case msgId message of
        None \<Rightarrow> (st, Inr message)
      | Some messageId \<Rightarrow>
          if \<not> truthyId (Some messageId) then (st, Inr message)
          else
            (let originalRequest = pendingRequests st messageId;
                 st1 = st\<lparr>pendingRequests := (pendingRequests st)(messageId := None)\<rparr>
             in (st1, transformResponseFunction ignoredTools originalRequest message)))"

subsection \<open>The handlers of mcpProxy\<close>

text \<open>
  \<open>transportToClient.onmessage\<close>. A message that is not blocked goes to the server; an
  \<open>initialize\<close> request first gets the suffix on \<open>params.clientInfo.name\<close>. The
  assignment changes the message object itself, which is also the object recorded in the
  table. The version string comes from \<open>package.json\<close> and is a parameter.
\<close>

definition viaSuffix :: "string \<Rightarrow> string option \<Rightarrow> string" where
  "viaSuffix version clientInfoName =
     (case clientInfoName of None \<Rightarrow> ''undefined'' | Some n \<Rightarrow> n) @ '' (via mcp-remote '' @ version @ '')''"

definition onClientMessage :: "string \<Rightarrow> string list \<Rightarrow> proxy \<Rightarrow> message \<Rightarrow> proxy" where
  "onClientMessage version ignoredTools st rawMessage =
     (case interceptRequest ignoredTools st rawMessage of
        (st1, Inl e) \<Rightarrow> st1\<lparr>thrown := thrown st1 @ [e]\<rparr>
      | (st1, Inr MESSAGE_BLOCKED) \<Rightarrow> st1
      | (st1, Inr (Passed message)) \<Rightarrow>
          if msgMethod message = Some ''initialize'' then
            (case msgParams message of
               None \<Rightarrow> st1\<lparr>thrown := thrown st1 @ [TypeError]\<rparr>
             | Some p \<Rightarrow>
                 (case paramsClientInfo p of
                    None \<Rightarrow> st1\<lparr>sentToServer := sentToServer st1 @ [message]\<rparr>
                  | Some ci \<Rightarrow>
                      (let message' = message\<lparr>msgParams := Some (p\<lparr>paramsClientInfo :=
                             Some (ci\<lparr>clientName := Some (viaSuffix version (clientName ci))\<rparr>)\<rparr>)\<rparr>;
                           table = (case msgId message of
                                      None \<Rightarrow> pendingRequests st1
                                    | Some i \<Rightarrow> if truthyId (Some i)
                                               then (pendingRequests st1)(i \<mapsto> message')
                                               else pendingRequests st1)
                       in st1\<lparr>pendingRequests := table, sentToServer := sentToServer st1 @ [message']\<rparr>)))
          else st1\<lparr>sentToServer := sentToServer st1 @ [message]\<rparr>)"

text \<open>\<open>transportToServer.onmessage\<close>.\<close>

definition onServerMessage :: "string list \<Rightarrow> proxy \<Rightarrow> message \<Rightarrow> proxy" where
  "onServerMessage ignoredTools st rawMessage =
     (case interceptResponse ignoredTools st rawMessage of
        (st1, Inl e) \<Rightarrow> st1\<lparr>thrown := thrown st1 @ [e]\<rparr>
      | (st1, Inr message) \<Rightarrow> st1\<lparr>sentToClient := sentToClient st1 @ [Relayed message]\<rparr>)"

text \<open>\<open>transportToClient.onclose\<close> and \<open>transportToServer.onclose\<close>.\<close>

definition onClientClose :: "proxy \<Rightarrow> proxy" where
  "onClientClose st =
     (if transportToServerClosed st then st
      else st\<lparr>transportToClientClosed := True, serverCloseCalls := serverCloseCalls st + 1\<rparr>)"

definition onServerClose :: "proxy \<Rightarrow> proxy" where
  "onServerClose st =
     (if transportToClientClosed st then st
      else st\<lparr>transportToServerClosed := True, clientCloseCalls := clientCloseCalls st + 1\<rparr>)"

text \<open>A session is the sequence of the events the two transports deliver.\<close>

datatype event = FromClient message | FromServer message | ClientClosed | ServerClosed

fun handle :: "string \<Rightarrow> string list \<Rightarrow> proxy \<Rightarrow> event \<Rightarrow> proxy" where
  "handle version ignoredTools st (FromClient m) = onClientMessage version ignoredTools st m"
| "handle version ignoredTools st (FromServer m) = onServerMessage ignoredTools st m"
| "handle version ignoredTools st ClientClosed = onClientClose st"
| "handle version ignoredTools st ServerClosed = onServerClose st"

definition mcpProxy :: "string \<Rightarrow> string list \<Rightarrow> event list \<Rightarrow> proxy" where
  "mcpProxy version ignoredTools events = foldl (handle version ignoredTools) newProxy events"

text \<open>Example messages: a request with a method and a tool name, and a list of tools as a response.\<close>

definition request :: "jid option \<Rightarrow> string \<Rightarrow> string option \<Rightarrow> message" where
  "request i m n =
     \<lparr>msgId = i, msgMethod = Some m,
      msgParams = Some \<lparr>paramsName = n, paramsClientInfo = None, paramsOther = []\<rparr>,
      msgResult = None, msgOther = []\<rparr>"

definition toolsResponse :: "jid option \<Rightarrow> string list \<Rightarrow> message" where
  "toolsResponse i ns =
     \<lparr>msgId = i, msgMethod = None, msgParams = None,
      msgResult = Some \<lparr>resultTools = Some (map (\<lambda>n. \<lparr>tool_name = n, tool_other = []\<rparr>) ns), resultOther = []\<rparr>,
      msgOther = []\<rparr>"

section \<open>The transport selector (utils.ts, connectToRemoteServer)\<close>

datatype strategy = SseOnly | HttpOnly | SseFirst | HttpFirst

datatype transport = SSEClientTransport | StreamableHTTPClientTransport

datatype reason = REASON_AUTH_NEEDED | REASON_TRANSPORT_FALLBACK

text \<open>
  What an attempt throws is an \<open>Error\<close> with a message; \<open>UnauthorizedError\<close> is the
  framing library's subclass.
\<close>

datatype failure = UnauthorizedError string | OtherError string

fun errorMessage :: "failure \<Rightarrow> string" where
  "errorMessage (UnauthorizedError msg) = msg"
| "errorMessage (OtherError msg) = msg"

text \<open>
  The collaborators. \<open>attempt n t\<close> is what the \<open>n\<close>-th connection attempt of a run does
  with the transport \<open>t\<close> (the body of the \<open>try\<close>: \<open>client.connect\<close>, or
  \<open>transport.start\<close> and the probe request): \<open>None\<close> when it connects, the error when
  it throws. \<open>authorize n\<close> is what \<open>authInitializer\<close>, \<open>waitForAuthCode\<close> and
  \<open>transport.finishAuth\<close> do after that attempt: they succeed, \<open>authInitializer\<close>
  throws, the code never arrives, or \<open>finishAuth\<close> throws.
\<close>

datatype authOutcome = Authorized | InitializerFailed failure | CodeNeverArrives | FinishAuthFailed failure

record connEnv =
  attempt :: "nat \<Rightarrow> transport \<Rightarrow> failure option"
  authorize :: "nat \<Rightarrow> authOutcome"

datatype connResult = Connected transport | Threw failure | Waiting

text \<open>The lines the function logs that tell its path.\<close>

datatype connLog =
    UsingStrategy strategy
  | ReceivedError string
  | Reconnecting reason
  | AlreadyAttempted reason
  | AuthenticationRequired
  | AuthorizationError
  | ConnectionError
  | ConnectedUsing transport

definition fallbackError :: "failure \<Rightarrow> bool" where
  "fallbackError error =
     (str_includes (errorMessage error) ''405'' \<or>
      str_includes (errorMessage error) ''Method Not Allowed'' \<or>
      str_includes (errorMessage error) ''404'' \<or>
      str_includes (errorMessage error) ''Not Found'')"

text \<open>\<^verbatim>\<open>error instanceof UnauthorizedError || (error instanceof Error && error.message.includes('Unauthorized'))\<close>\<close>

fun unauthorizedError :: "failure \<Rightarrow> bool" where
  "unauthorizedError (UnauthorizedError msg) = True"
| "unauthorizedError (OtherError msg) = str_includes msg ''Unauthorized''"

definition shouldAttemptFallback :: "strategy \<Rightarrow> bool" where
  "shouldAttemptFallback transportStrategy = (transportStrategy = HttpFirst \<or> transportStrategy = SseFirst)"

definition sseTransport :: "strategy \<Rightarrow> bool" where
  "sseTransport transportStrategy = (transportStrategy = SseOnly \<or> transportStrategy = SseFirst)"

definition transportOf :: "strategy \<Rightarrow> transport" where
  "transportOf transportStrategy =
     (if sseTransport transportStrategy then SSEClientTransport else StreamableHTTPClientTransport)"

definition alreadyFallback :: failure where
  "alreadyFallback = OtherError ''Already attempted transport fallback. Giving up.''"

definition alreadyAuth :: failure where
  "alreadyAuth = OtherError ''Already attempted reconnection for reason: authentication-needed. Giving up.''"

definition reasonsLeft :: "reason set \<Rightarrow> nat" where
  "reasonsLeft recursionReasons =
     (if REASON_TRANSPORT_FALLBACK \<in> recursionReasons then 0 else 1) +
     (if REASON_AUTH_NEEDED \<in> recursionReasons then 0 else 1)"

text \<open>
  \<open>connectToRemoteServer\<close>. The second argument counts the attempts made so far in the
  run; the source's recursion passes the same mutable set \<open>recursionReasons\<close> on. The
  result is what the promise settles to and the log of the run, oldest line first.
\<close>

function connectToRemoteServer ::
  "connEnv \<Rightarrow> nat \<Rightarrow> strategy \<Rightarrow> reason set \<Rightarrow> connResult \<times> connLog list" where
  "connectToRemoteServer env n transportStrategy recursionReasons =
     (let transport = transportOf transportStrategy in
      case attempt env n transport of
        None \<Rightarrow> (Connected transport, [UsingStrategy transportStrategy, ConnectedUsing transport])
      | Some error \<Rightarrow>
          if shouldAttemptFallback transportStrategy \<and> fallbackError error then
            if REASON_TRANSPORT_FALLBACK \<in> recursionReasons then
              (Threw alreadyFallback,
               [UsingStrategy transportStrategy, ReceivedError (errorMessage error),
                AlreadyAttempted REASON_TRANSPORT_FALLBACK])
            else
              (case connectToRemoteServer env (Suc n)
                      (if sseTransport transportStrategy then HttpOnly else SseOnly)
                      (insert REASON_TRANSPORT_FALLBACK recursionReasons) of
                 (r, logs) \<Rightarrow>
                   (r, [UsingStrategy transportStrategy, ReceivedError (errorMessage error),
                        Reconnecting REASON_TRANSPORT_FALLBACK] @ logs))
          else if unauthorizedError error then
            (case authorize env n of
               CodeNeverArrives \<Rightarrow> (Waiting, [UsingStrategy transportStrategy, AuthenticationRequired])
             | InitializerFailed initError \<Rightarrow>
                 (Threw initError, [UsingStrategy transportStrategy, AuthenticationRequired])
             | FinishAuthFailed authError \<Rightarrow>
                 (Threw authError, [UsingStrategy transportStrategy, AuthenticationRequired, AuthorizationError])
             | Authorized \<Rightarrow>
                 if REASON_AUTH_NEEDED \<in> recursionReasons then
                   (Threw alreadyAuth,
                    [UsingStrategy transportStrategy, AuthenticationRequired,
                     AlreadyAttempted REASON_AUTH_NEEDED, AuthorizationError])
                 else
                   (case connectToRemoteServer env (Suc n) transportStrategy
                           (insert REASON_AUTH_NEEDED recursionReasons) of
                      (r, logs) \<Rightarrow>
                        (r, [UsingStrategy transportStrategy, AuthenticationRequired,
                             Reconnecting REASON_AUTH_NEEDED] @ logs)))
          else (Threw error, [UsingStrategy transportStrategy, ConnectionError]))"
  by pat_completeness auto
termination
  by (relation "measure (\<lambda>(env, n, transportStrategy, recursionReasons). reasonsLeft recursionReasons)")
     (auto simp: reasonsLeft_def)

declare connectToRemoteServer.simps [simp del]

text \<open>The transports a run tried, and how often it fell back.\<close>

fun strategiesTried :: "connLog list \<Rightarrow> strategy list" where
  "strategiesTried [] = []"
| "strategiesTried (UsingStrategy s # logs) = s # strategiesTried logs"
| "strategiesTried (l # logs) = strategiesTried logs"

definition fallbacks :: "connLog list \<Rightarrow> nat" where
  "fallbacks logs = length (filter (\<lambda>l. l = Reconnecting REASON_TRANSPORT_FALLBACK) logs)"

text \<open>An environment given by the outcomes of the first attempts; later attempts connect.\<close>

definition scripted :: "failure option list \<Rightarrow> connEnv" where
  "scripted outcomes =
     \<lparr>attempt = (\<lambda>n t. if n < length outcomes then outcomes ! n else None),
      authorize = (\<lambda>n. Authorized)\<rparr>"

section \<open>The credential store (mcp-auth-config.ts)\<close>

text \<open>
  A parsed JSON value. \<open>JSON.parse\<close> and \<open>JSON.stringify\<close> are the language's own and are
  parameters of the model, and so is the schema \<open>OAuthTokensSchema\<close> of the framing
  library.
\<close>

datatype json = JNull | JBool bool | JNumber int | JString string | JArray "json list" | JObject "(string \<times> json) list"

text \<open>
  What the operations of the store can throw: a file-system error with its \<open>code\<close>, the
  \<open>SyntaxError\<close> of \<open>JSON.parse\<close>, and the error of a schema that rejects.
\<close>

datatype storeError = FsError string | JsonSyntaxError | SchemaError


text \<open>
  The file system as the store sees it: the configuration directory, what \<open>fs.mkdir\<close>
  does there (\<open>None\<close> when it succeeds), what \<open>fs.readFile\<close> gives for a path, and what
  \<open>fs.writeFile\<close> does (\<open>None\<close> when it succeeds).
\<close>

record fileSystem =
  configDir :: string
  mkdir :: "storeError option"
  readFile :: "string \<Rightarrow> storeError + string"
  writeFile :: "storeError option"

datatype logLine = ErrorCreatingConfigDir | ErrorReading string | ErrorWriting string

definition getConfigFilePath :: "fileSystem \<Rightarrow> string \<Rightarrow> string \<Rightarrow> string" where
  "getConfigFilePath files serverUrlHash filename =
     configDir files @ ''/'' @ serverUrlHash @ ''_'' @ filename"

text \<open>\<open>ensureConfigDir\<close> logs and throws again what \<open>fs.mkdir\<close> throws.\<close>

definition ensureConfigDir :: "fileSystem \<Rightarrow> (storeError + unit) \<times> logLine list" where
  "ensureConfigDir files =
     (case mkdir files of None \<Rightarrow> (Inr (), []) | Some error \<Rightarrow> (Inl error, [ErrorCreatingConfigDir]))"



text \<open>
  \<open>writeJsonFile\<close>: the new file system holds the text of the data under the path; an
  error is logged and thrown again, and the file stays as it was.
\<close>

definition writeJsonFile ::
  "fileSystem \<Rightarrow> (json \<Rightarrow> string) \<Rightarrow> string \<Rightarrow> string \<Rightarrow> json \<Rightarrow> (storeError + fileSystem) \<times> logLine list" where
  "writeJsonFile files JSON_stringify serverUrlHash filename data =
     (case ensureConfigDir files of
        (Inl error, logs) \<Rightarrow> (Inl error, logs @ [ErrorWriting filename])
      | (Inr _, logs) \<Rightarrow>
          (case writeFile files of
             Some error \<Rightarrow> (Inl error, logs @ [ErrorWriting filename])
           | None \<Rightarrow>
               (Inr (files\<lparr>readFile := (readFile files)
                        (getConfigFilePath files serverUrlHash filename := Inr (JSON_stringify data))\<rparr>),
                logs)))"


subsection \<open>The lockfile\<close>

record lockfileData =
  pid :: int
  port :: int
  timestamp :: int

text \<open>A member of a parsed object: the last one of that name.\<close>

definition member :: "json \<Rightarrow> string \<Rightarrow> json option" where
  "member data key = (case data of JObject members \<Rightarrow> map_of (rev members) key | _ \<Rightarrow> None)"





section \<open>The classical OAuth provider (oauth-provider-non-pkce.ts)\<close>

subsection \<open>Tokens and the collaborators\<close>

text \<open>
  A token bundle as the provider handles it. The schema makes \<open>access_token\<close> a string in
  every bundle that is read; a bundle built from a token response has what the response
  had, so the member may be missing there.
\<close>

record tokens =
  access_token :: "string option"
  token_type :: string
  expires_in :: "int option"
  refresh_token :: "string option"
  scope :: "string option"

text \<open>
  The JSON body of a token response, read as the members the provider uses, with the
  types the protocol gives them; a member that is missing is \<open>None\<close>, and so is every
  member of a body that is not an object.
\<close>

record tokenData =
  data_access_token :: "string option"
  data_token_type :: "string option"
  data_expires_in :: "int option"
  data_refresh_token :: "string option"
  data_scope :: "string option"

text \<open>The form a request to the token endpoint carries.\<close>

datatype tokenRequest =
    AuthorizationCodeGrant string string string "string option"
  | RefreshTokenGrant string string "string option"

text \<open>
  What \<open>fetch\<close> does with a request to the token endpoint: it throws, or it gives a
  response with \<open>ok\<close>, \<open>status\<close>, the text of the body and what \<open>response.json()\<close> gives
  (\<open>None\<close> when that throws, or gives \<open>null\<close>, whose members cannot be read).
\<close>

datatype tokenResponse = FetchThrows | Response bool nat string "tokenData option"

datatype providerError =
    NoRefreshTokenAvailable
  | TokenRefreshFailed nat string
  | TokenExchangeFailed nat string
  | FailedToObtainAccessToken
  | FetchFailed
  | BodyNotJson
  | InvalidUrl
  | StoreFailed storeError

datatype 'a outcome = Returns 'a | Throws providerError | NeverSettles

text \<open>
  The collaborators: \<open>JSON.parse\<close> (\<open>None\<close> where it throws) and \<open>JSON.stringify\<close>, the
  schema of the framing library (\<open>None\<close> where it rejects), \<open>fetch\<close> on the token
  endpoint, whether \<open>new URL\<close> accepts a text, \<open>sanitizeUrl\<close> of the package
  \<open>strict-url-sanitise\<close> on the authorization URL (\<open>None\<close> where it throws), whether
  \<open>open\<close> succeeds on a text, and the code that the callback delivers (\<open>None\<close> when it
  never comes).
\<close>

record oauthEnv =
  JSON_parse :: "string \<Rightarrow> json option"
  JSON_stringify :: "json \<Rightarrow> string"
  OAuthTokensSchema :: "json \<Rightarrow> tokens option"
  fetchToken :: "string \<Rightarrow> tokenRequest \<Rightarrow> tokenResponse"
  validUrl :: "string \<Rightarrow> bool"
  sanitizeUrl :: "string \<Rightarrow> (string \<times> string) list \<Rightarrow> string option"
  openUrl :: "string \<Rightarrow> bool"
  waitForAuthCode :: "string option"

record provider =
  serverUrlHash :: string
  callbackPath :: string
  clientId :: string
  clientSecret :: "string option"
  redirectUri :: string
  oauthState :: string

text \<open>
  What the provider does to the world outside the store, oldest first: the requests to
  the token endpoint, the start and the end of the callback server, the line that shows
  the authorization URL to the user, the call of \<open>open\<close> with the sanitized URL, and the
  line that tells whether the browser was opened.
\<close>

datatype action =
    PostToken string tokenRequest
  | StartCallbackServer nat
  | ShowAuthorizationUrl string "(string \<times> string) list"
  | OpenBrowser string
  | BrowserOpened
  | CouldNotOpenBrowser
  | CloseCallbackServer

record world =
  files :: fileSystem
  actions :: "action list"

subsection \<open>getTokens and saveTokens\<close>



text \<open>The object \<open>JSON.stringify\<close> gets: members that are \<open>undefined\<close> are left out.\<close>

definition optionalMember :: "string \<Rightarrow> json option \<Rightarrow> (string \<times> json) list" where
  "optionalMember key v = (case v of None \<Rightarrow> [] | Some j \<Rightarrow> [(key, j)])"

definition tokensJson :: "tokens \<Rightarrow> json" where
  "tokensJson t =
     JObject (optionalMember ''access_token'' (map_option JString (access_token t)) @
              [(''token_type'', JString (token_type t))] @
              optionalMember ''expires_in'' (map_option JNumber (expires_in t)) @
              optionalMember ''refresh_token'' (map_option JString (refresh_token t)) @
              optionalMember ''scope'' (map_option JString (scope t)))"

definition saveTokens :: "provider \<Rightarrow> oauthEnv \<Rightarrow> world \<Rightarrow> tokens \<Rightarrow> unit outcome \<times> world" where
  "saveTokens p env w t =
     (case fst (writeJsonFile (files w) (JSON_stringify env) (serverUrlHash p) ''tokens.json'' (tokensJson t)) of
        Inl error \<Rightarrow> (Throws (StoreFailed error), w)
      | Inr files' \<Rightarrow> (Returns (), w\<lparr>files := files'\<rparr>))"



subsection \<open>The token endpoint\<close>






subsection \<open>The interactive authorization\<close>







subsection \<open>getValidAccessToken\<close>





subsection \<open>ensureAccessToken in the words of the specification\<close>



subsection \<open>Examples\<close>

text \<open>
  A printer for the examples: the text that \<^verbatim>\<open>JSON.stringify(data, null, 2)\<close> gives for a
  value whose numbers are integers of less than 22 digits and whose objects have
  distinct keys, none of them an array index.
\<close>

function showNat :: "nat \<Rightarrow> string" where
  "showNat n = (if n < 10 then [''0123456789'' ! n] else showNat (n div 10) @ [''0123456789'' ! (n mod 10)])"
  by pat_completeness auto
termination
  by (relation "measure id") auto

declare showNat.simps [simp del]

definition showInt :: "int \<Rightarrow> string" where
  "showInt i = (if i < 0 then ''-'' @ showNat (nat (- i)) else showNat (nat i))"

definition newline :: char where
  "newline = CHR 0x0A"

definition escapeChar :: "char \<Rightarrow> string" where
  "escapeChar c =
     (if c = quote then [backslash, quote]
      else if c = backslash then [backslash, backslash]
      else if c = CHR 0x08 then [backslash, CHR ''b'']
      else if c = CHR 0x09 then [backslash, CHR ''t'']
      else if c = CHR 0x0A then [backslash, CHR ''n'']
      else if c = CHR 0x0C then [backslash, CHR ''f'']
      else if c = CHR 0x0D then [backslash, CHR ''r'']
      else if (of_char c :: nat) < 32
        then [backslash] @ ''u00'' @ [hexAlphabet ! ((of_char c :: nat) div 16), hexAlphabet ! ((of_char c :: nat) mod 16)]
      else [c])"

definition quoted :: "string \<Rightarrow> string" where
  "quoted s = [quote] @ concat (map escapeChar s) @ [quote]"

definition indent :: "nat \<Rightarrow> string" where
  "indent depth = replicate (2 * depth) CHR '' ''"

fun stringifyAt :: "nat \<Rightarrow> json \<Rightarrow> string"
  and stringifyItems :: "nat \<Rightarrow> json list \<Rightarrow> string list"
  and stringifyMembers :: "nat \<Rightarrow> (string \<times> json) list \<Rightarrow> string list" where
  "stringifyAt depth JNull = ''null''"
| "stringifyAt depth (JBool b) = (if b then ''true'' else ''false'')"
| "stringifyAt depth (JNumber i) = showInt i"
| "stringifyAt depth (JString s) = quoted s"
| "stringifyAt depth (JArray xs) =
     (if xs = [] then ''[]''
      else ''['' @ [newline] @ join ('','' @ [newline]) (stringifyItems (Suc depth) xs) @
           [newline] @ indent depth @ '']'')"
| "stringifyAt depth (JObject members) =
     (if members = [] then ''{}''
      else ''{'' @ [newline] @ join ('','' @ [newline]) (stringifyMembers (Suc depth) members) @
           [newline] @ indent depth @ ''}'')"
| "stringifyItems depth [] = []"
| "stringifyItems depth (x # xs) = (indent depth @ stringifyAt depth x) # stringifyItems depth xs"
| "stringifyMembers depth [] = []"
| "stringifyMembers depth ((key, v) # members) =
     (indent depth @ quoted key @ '': '' @ stringifyAt depth v) # stringifyMembers depth members"







section \<open>Endpoint discovery (oauth-connect-non-pkce.ts, discoverOAuthEndpoints)\<close>

text \<open>JavaScript truthiness of a parsed JSON value.\<close>

fun jsTruthy :: "json \<Rightarrow> bool" where
  "jsTruthy JNull = False"
| "jsTruthy (JBool b) = b"
| "jsTruthy (JNumber n) = (n \<noteq> 0)"
| "jsTruthy (JString s) = (s \<noteq> [])"
| "jsTruthy (JArray xs) = True"
| "jsTruthy (JObject members) = True"

text \<open>
  \<open>parseWWWAuthenticate\<close>: the first match of \<^verbatim>\<open>/resource_metadata="([^"]+)"/\<close>, that is
  the leftmost place where the text \<^verbatim>\<open>resource_metadata="\<close> is followed by at least one
  character other than the quote and then by a quote.
\<close>

fun parseWWWAuthenticate :: "string \<Rightarrow> string option" where
  "parseWWWAuthenticate [] = None"
| "parseWWWAuthenticate (c # cs) =
     (let opening = ''resource_metadata='' @ [quote];
          rest = drop (length opening) (c # cs);
          url = takeWhile (\<lambda>x. x \<noteq> quote) rest
      in if take (length opening) (c # cs) = opening \<and> url \<noteq> [] \<and> dropWhile (\<lambda>x. x \<noteq> quote) rest \<noteq> []
         then Some url
         else parseWWWAuthenticate cs)"

text \<open>
  What \<open>fetch\<close> gives for a GET request: it throws, or there is a response with its
  status, what \<open>headers.get('www-authenticate')\<close> gives, and what \<open>json()\<close> gives (\<open>None\<close>
  when it throws).
\<close>

record httpResponse =
  httpStatus :: nat
  wwwAuthenticate :: "string option"
  jsonBody :: "json option"

definition responseOk :: "httpResponse \<Rightarrow> bool" where
  "responseOk r = (200 \<le> httpStatus r \<and> httpStatus r \<le> 299)"

text \<open>
  The collaborators of the discovery. \<open>fetchGet\<close> is \<open>fetch\<close> by URL and request
  headers. \<open>URL_origin\<close> is the origin of \<open>new URL(serverUrl)\<close>, \<open>None\<close> where the
  constructor throws. \<open>URL_withPathname v p\<close> is the text of \<open>new URL(v)\<close> after its
  \<open>pathname\<close> was set to \<open>p\<close>, \<open>None\<close> where the constructor throws; \<open>v\<close> is the
  value the code hands over, a parsed JSON value or \<open>undefined\<close>, which the constructor
  turns into a text itself. \<open>greaterThanZero v\<close> is the language's \<open>v > 0\<close> for a string,
  an array or an object \<open>v\<close>, which goes through the conversion to a number; \<open>None\<close>
  where that conversion throws.
\<close>

record discoveryEnv =
  fetchGet :: "string \<Rightarrow> (string \<times> string) list \<Rightarrow> httpResponse option"
  URL_origin :: "string \<Rightarrow> string option"
  URL_withPathname :: "json option \<Rightarrow> string \<Rightarrow> string option"
  greaterThanZero :: "json \<Rightarrow> bool option"

datatype discoveryError = FetchTypeError | JsonTypeError | UrlTypeError

text \<open>\<^verbatim>\<open>{ ...headers, Accept: 'application/json' }\<close>\<close>

definition withAccept :: "(string \<times> string) list \<Rightarrow> (string \<times> string) list" where
  "withAccept headers = filter (\<lambda>(k, v). k \<noteq> ''Accept'') headers @ [(''Accept'', ''application/json'')]"

text \<open>
  \<^verbatim>\<open>const authorizationServers = resourceMetadata.authorization_servers\<close>
  Reading a member of \<open>null\<close> throws; a value that is not an object has no such member.
\<close>

definition authorizationServersOf :: "json \<Rightarrow> discoveryError + json option" where
  "authorizationServersOf resourceMetadata =
     (case resourceMetadata of
        JNull \<Rightarrow> Inl JsonTypeError
      | _ \<Rightarrow> Inr (member resourceMetadata ''authorization_servers''))"

text \<open>
  \<open>v.length\<close> for a truthy \<open>v\<close>: the length of a string or an array, the member of that
  name of an object, and \<open>undefined\<close> for a number or a boolean.
\<close>

definition lengthOf :: "json \<Rightarrow> json option" where
  "lengthOf v =
     (case v of
        JString s \<Rightarrow> Some (JNumber (int (length s)))
      | JArray xs \<Rightarrow> Some (JNumber (int (length xs)))
      | JObject members \<Rightarrow> member v ''length''
      | _ \<Rightarrow> None)"

text \<open>
  \<open>l > 0\<close>: a number is compared as it is, \<open>undefined\<close> is not a number, \<open>null\<close> counts
  as 0 and a boolean as 0 or 1; every other value is converted by the language.
\<close>

definition positive :: "discoveryEnv \<Rightarrow> json option \<Rightarrow> discoveryError + bool" where
  "positive env l =
     (case l of
        None \<Rightarrow> Inr False
      | Some (JNumber n) \<Rightarrow> Inr (0 < n)
      | Some (JBool b) \<Rightarrow> Inr b
      | Some JNull \<Rightarrow> Inr False
      | Some v \<Rightarrow> (case greaterThanZero env v of None \<Rightarrow> Inl JsonTypeError | Some b \<Rightarrow> Inr b))"

text \<open>
  \<open>v[0]\<close> for a truthy \<open>v\<close>: the first character of a string, the first element of an
  array, the member \<open>0\<close> of an object, and \<open>undefined\<close> otherwise.
\<close>

definition firstOf :: "json \<Rightarrow> json option" where
  "firstOf v =
     (case v of
        JString (c # cs) \<Rightarrow> Some (JString [c])
      | JArray (x # xs) \<Rightarrow> Some x
      | JObject members \<Rightarrow> member v ''0''
      | _ \<Rightarrow> None)"

text \<open>
  \<^verbatim>\<open>if (authorizationServers && authorizationServers.length > 0)\<close>
  \<^verbatim>\<open>const authServerUrl = authorizationServers[0]\<close>
  The result is \<open>None\<close> where the condition fails, and otherwise the value handed to
  \<open>new URL\<close>, whatever it is.
\<close>

definition firstAuthorizationServer :: "discoveryEnv \<Rightarrow> json \<Rightarrow> discoveryError + json option option" where
  "firstAuthorizationServer env resourceMetadata =
     (case authorizationServersOf resourceMetadata of
        Inl error \<Rightarrow> Inl error
      | Inr None \<Rightarrow> Inr None
      | Inr (Some authorizationServers) \<Rightarrow>
          if \<not> jsTruthy authorizationServers then Inr None
          else (case positive env (lengthOf authorizationServers) of
                  Inl error \<Rightarrow> Inl error
                | Inr False \<Rightarrow> Inr None
                | Inr True \<Rightarrow> Inr (Some (firstOf authorizationServers))))"

text \<open>
  Step 4, the innermost \<open>try\<close>: the metadata of the authorization server. Its \<open>catch\<close>
  swallows what \<open>fetch\<close> and \<open>json()\<close> throw. The result is the pair to return, or
  \<open>None\<close> to go on to the fallback.
\<close>

definition endpointsOf :: "json \<Rightarrow> discoveryError + (json \<times> json) option" where
  "endpointsOf authServerMetadata =
     (case authServerMetadata of
        JNull \<Rightarrow> Inl JsonTypeError
      | _ \<Rightarrow>
          (case (member authServerMetadata ''authorization_endpoint'', member authServerMetadata ''token_endpoint'') of
             (Some a, Some t) \<Rightarrow> if jsTruthy a \<and> jsTruthy t then Inr (Some (a, t)) else Inr None
           | _ \<Rightarrow> Inr None))"

definition authServerStep_try :: "discoveryEnv \<Rightarrow> string \<Rightarrow> discoveryError + (json \<times> json) option" where
  "authServerStep_try env authServerMetadataUrl =
     (case fetchGet env authServerMetadataUrl [(''Accept'', ''application/json'')] of
        None \<Rightarrow> Inl FetchTypeError
      | Some authServerMetadataResponse \<Rightarrow>
          if responseOk authServerMetadataResponse then
            (case jsonBody authServerMetadataResponse of
               None \<Rightarrow> Inl JsonTypeError
             | Some authServerMetadata \<Rightarrow> endpointsOf authServerMetadata)
          else Inr None)"

definition authServerStep :: "discoveryEnv \<Rightarrow> string \<Rightarrow> (json \<times> json) option" where
  "authServerStep env authServerMetadataUrl =
     (case authServerStep_try env authServerMetadataUrl of Inl error \<Rightarrow> None | Inr r \<Rightarrow> r)"

text \<open>
  Step 3, the middle \<open>try\<close>: the metadata of the protected resource. Its \<open>catch\<close>
  swallows what \<open>fetch\<close>, \<open>json()\<close>, the read of the member and \<open>new URL\<close> throw.
\<close>

definition resourceStep_try :: "discoveryEnv \<Rightarrow> string \<Rightarrow> discoveryError + (json \<times> json) option" where
  "resourceStep_try env resourceMetadataUrl =
     (case fetchGet env resourceMetadataUrl [(''Accept'', ''application/json'')] of
        None \<Rightarrow> Inl FetchTypeError
      | Some resourceMetadataResponse \<Rightarrow>
          if responseOk resourceMetadataResponse then
            (case jsonBody resourceMetadataResponse of
               None \<Rightarrow> Inl JsonTypeError
             | Some resourceMetadata \<Rightarrow>
                 (case firstAuthorizationServer env resourceMetadata of
                    Inl error \<Rightarrow> Inl error
                  | Inr None \<Rightarrow> Inr None
                  | Inr (Some authServerUrl) \<Rightarrow>
                      (case URL_withPathname env authServerUrl ''/.well-known/oauth-authorization-server'' of
                         None \<Rightarrow> Inl UrlTypeError
                       | Some authServerMetadataUrl \<Rightarrow> Inr (authServerStep env authServerMetadataUrl))))
          else Inr None)"

definition resourceStep :: "discoveryEnv \<Rightarrow> string \<Rightarrow> (json \<times> json) option" where
  "resourceStep env resourceMetadataUrl =
     (case resourceStep_try env resourceMetadataUrl of Inl error \<Rightarrow> None | Inr r \<Rightarrow> r)"

text \<open>Steps 1 and 2, the outer \<open>try\<close>.\<close>

definition discover_try ::
  "discoveryEnv \<Rightarrow> string \<Rightarrow> (string \<times> string) list \<Rightarrow> discoveryError + (json \<times> json) option" where
  "discover_try env serverUrl headers =
     (case fetchGet env serverUrl (withAccept headers) of
        None \<Rightarrow> Inl FetchTypeError
      | Some response \<Rightarrow>
          if httpStatus response = 401 then
            (if truthy (wwwAuthenticate response) then
               (case parseWWWAuthenticate (case wwwAuthenticate response of Some h \<Rightarrow> h | None \<Rightarrow> []) of
                  None \<Rightarrow> Inr None
                | Some resourceMetadataUrl \<Rightarrow> Inr (resourceStep env resourceMetadataUrl))
             else Inr None)
          else Inr None)"

text \<open>
  \<open>discoverOAuthEndpoints\<close>: what the outer \<open>try\<close> returns, and otherwise the fallback.
  \<^verbatim>\<open>const baseUrl = new URL(serverUrl)\<close> stands after the \<open>try\<close>: what it throws leaves
  the function.
\<close>

definition fallbackEndpoints :: "string \<Rightarrow> json \<times> json" where
  "fallbackEndpoints origin = (JString (origin @ ''/oauth/authorize''), JString (origin @ ''/oauth/token''))"

definition discoverOAuthEndpoints ::
  "discoveryEnv \<Rightarrow> string \<Rightarrow> (string \<times> string) list \<Rightarrow> discoveryError + (json \<times> json)" where
  "discoverOAuthEndpoints env serverUrl headers =
     (case discover_try env serverUrl headers of
        Inr (Some endpoints) \<Rightarrow> Inr endpoints
      | _ \<Rightarrow>
          (case URL_origin env serverUrl of
             None \<Rightarrow> Inl UrlTypeError
           | Some origin \<Rightarrow> Inr (fallbackEndpoints origin)))"

subsection \<open>The steps of the discovery\<close>

text \<open>
  The URL of the resource metadata that the first response names: the response is a 401
  whose \<open>WWW-Authenticate\<close> header has a \<open>resource_metadata\<close> parameter.
\<close>

definition resourceMetadataUrlOf :: "discoveryEnv \<Rightarrow> string \<Rightarrow> (string \<times> string) list \<Rightarrow> string option" where
  "resourceMetadataUrlOf env serverUrl headers =
     Option.bind (fetchGet env serverUrl (withAccept headers))
       (\<lambda>response. if httpStatus response = 401
          then Option.bind (wwwAuthenticate response) parseWWWAuthenticate else None)"

text \<open>The JSON document a URL serves: the request succeeds with a 2xx status and a JSON body.\<close>

definition fetchedJson :: "discoveryEnv \<Rightarrow> string \<Rightarrow> json option" where
  "fetchedJson env url =
     Option.bind (fetchGet env url [(''Accept'', ''application/json'')])
       (\<lambda>response. if responseOk response then jsonBody response else None)"

subsection \<open>Examples\<close>

text \<open>An environment in which every request fails and every server URL has the same origin.\<close>

definition offline :: discoveryEnv where
  "offline = \<lparr>fetchGet = (\<lambda>url headers. None), URL_origin = (\<lambda>url. Some ''https://mcp.example.com''),
     URL_withPathname = (\<lambda>v path. None), greaterThanZero = (\<lambda>v. Some False)\<rparr>"

text \<open>
  An environment in which the server answers 401 and names its resource metadata, the
  resource metadata has the given \<open>authorization_servers\<close>, and the authorization
  server \<open>https://auth.example.com\<close> advertises its two endpoints. \<open>new URL\<close> accepts that
  one URL, also inside an array of one element or of one such array (the constructor
  reads such an array as its element); \<open>1 > 0\<close> holds for the string \<open>1\<close>.
\<close>

definition challenge :: string where
  "challenge = ''Bearer resource_metadata='' @ [quote] @ ''https://mcp.example.com/meta'' @ [quote]"

definition advertised :: json where
  "advertised = JObject [(''authorization_endpoint'', JString ''https://auth.example.com/authorize''),
     (''token_endpoint'', JString ''https://auth.example.com/token'')]"

definition advertising :: "json \<Rightarrow> discoveryEnv" where
  "advertising servers =
     \<lparr>fetchGet = (\<lambda>url headers.
        if url = ''https://mcp.example.com/sse''
        then Some \<lparr>httpStatus = 401, wwwAuthenticate = Some challenge, jsonBody = None\<rparr>
        else if url = ''https://mcp.example.com/meta''
        then Some \<lparr>httpStatus = 200, wwwAuthenticate = None,
                    jsonBody = Some (JObject [(''authorization_servers'', servers)])\<rparr>
        else if url = ''https://auth.example.com/.well-known/oauth-authorization-server''
        then Some \<lparr>httpStatus = 200, wwwAuthenticate = None, jsonBody = Some advertised\<rparr>
        else None),
      URL_origin = (\<lambda>url. Some ''https://mcp.example.com''),
      URL_withPathname = (\<lambda>v path.
        if v = Some (JString ''https://auth.example.com'') \<or>
           v = Some (JArray [JString ''https://auth.example.com'']) \<or>
           v = Some (JArray [JArray [JString ''https://auth.example.com'']])
        then Some (''https://auth.example.com'' @ path) else None),
      greaterThanZero = (\<lambda>v. Some (v = JString ''1''))\<rparr>"
section \<open>Facts about the default callback port\<close>

lemma hex_char_facts:
  assumes "c \<in> set hexAlphabet"
  shows "digitValue16 c = Some (nibble c)" and "isDigit16 c" and "\<not> isStrWhiteSpaceChar c"
    and "c \<noteq> CHR ''-''" and "c \<noteq> CHR ''+''" and "c \<noteq> CHR ''x''" and "c \<noteq> CHR ''X''"
    and "nibble c < 16"
  using assms
  by (simp_all only: hexAlphabet_def list.set insert_iff empty_iff, safe)
     (simp_all add: hexAlphabet_def digitValue16_def isDigit16_def isStrWhiteSpaceChar_def nibble_def)

lemma fingerprint_first_four:
  assumes "isFingerprint h"
  obtains a b c d rest where "h = a # b # c # d # rest"
    and "a \<in> set hexAlphabet" and "b \<in> set hexAlphabet"
    and "c \<in> set hexAlphabet" and "d \<in> set hexAlphabet"
proof -
  from assms have len: "length h = 32" and all: "list_all (\<lambda>c. c \<in> set hexAlphabet) h"
    by (simp_all add: isFingerprint_def)
  from len obtain a h1 where h: "h = a # h1" by (cases h) auto
  with len obtain b h2 where h1: "h1 = b # h2" by (cases h1) auto
  with h len obtain c h3 where h2: "h2 = c # h3" by (cases h2) auto
  with h h1 len obtain d h4 where h3: "h3 = d # h4" by (cases h3) auto
  from all h h1 h2 h3 have "a \<in> set hexAlphabet" "b \<in> set hexAlphabet"
    "c \<in> set hexAlphabet" "d \<in> set hexAlphabet" by simp_all
  with h h1 h2 h3 that show thesis by blast
qed

lemma parseInt16_four_digits:
  assumes "a \<in> set hexAlphabet" "b \<in> set hexAlphabet" "c \<in> set hexAlphabet" "d \<in> set hexAlphabet"
  shows "parseInt16 [a, b, c, d] =
           Some (int (4096 * nibble a + 256 * nibble b + 16 * nibble c + nibble d))"
  using assms
  by (simp add: parseInt16_def digitsValue16_def hex_char_facts Let_def)

lemma parseInt16_fingerprint:
  assumes "isFingerprint h"
  shows "parseInt16 (take 4 h) = Some (int (first16bits h))" and "first16bits h < 65536"
proof -
  from assms obtain a b c d rest where h: "h = a # b # c # d # rest"
    and m: "a \<in> set hexAlphabet" "b \<in> set hexAlphabet" "c \<in> set hexAlphabet" "d \<in> set hexAlphabet"
    by (rule fingerprint_first_four)
  show "parseInt16 (take 4 h) = Some (int (first16bits h))"
    using parseInt16_four_digits [OF m] by (simp add: h first16bits_def)
  from m have "nibble a < 16" "nibble b < 16" "nibble c < 16" "nibble d < 16"
    by (simp_all add: hex_char_facts)
  then show "first16bits h < 65536"
    by (simp add: h first16bits_def)
qed

lemma hex4_expand:
  fixes x :: nat
  shows "4096 * (x div 4096) + 256 * (x div 256 mod 16) + 16 * (x div 16 mod 16) + x mod 16 = x"
proof -
  define a where "a = x div 16"
  define b where "b = a div 16"
  define c where "c = b div 16"
  have b: "x div 256 = b" and c: "x div 4096 = c"
    by (simp_all add: a_def b_def c_def div_mult2_eq)
  have "x = 16 * a + x mod 16" by (simp add: a_def)
  moreover have "a = 16 * b + a mod 16" by (simp add: b_def)
  moreover have "b = 16 * c + b mod 16" by (simp add: c_def)
  ultimately have "x = 4096 * c + 256 * (b mod 16) + 16 * (a mod 16) + x mod 16" by linarith
  then show ?thesis by (simp add: b c a_def [symmetric])
qed

lemma length_hexAlphabet: "length hexAlphabet = 16"
  by (simp add: hexAlphabet_def)

lemma nibble_hexAlphabet_all: "\<forall>k \<in> set [0..<16]. nibble (hexAlphabet ! k) = k"
  by code_simp

lemma nibble_hexAlphabet: "k < 16 \<Longrightarrow> nibble (hexAlphabet ! k) = k"
  using nibble_hexAlphabet_all by simp

lemma hexDigest_nth:
  "i < 32 \<Longrightarrow> hexDigest d ! i = hexAlphabet ! unat (take_bit 4 (drop_bit (4 * (31 - i)) d))"
  unfolding hexDigest_def by (simp only: nth_map_upt minus_nat.diff_0 add_0) 

lemma unat_nibble_lt: "unat (take_bit 4 (w :: 128 word)) < 16"
proof -
  have "unat (take_bit 4 w) = take_bit 4 (unat w)" by (rule unsigned_take_bit_eq)
  also have "\<dots> < 2 ^ 4" by (rule take_bit_nat_less_exp)
  finally show ?thesis by simp
qed

lemma hexDigest_isFingerprint: "isFingerprint (hexDigest d)"
proof -
  have "hexAlphabet ! k \<in> set hexAlphabet" if "k < 16" for k
    by (rule nth_mem) (simp only: length_hexAlphabet that)
  then have "\<forall>c \<in> set (hexDigest d). c \<in> set hexAlphabet"
    unfolding hexDigest_def using unat_nibble_lt by (simp only: set_map) blast
  moreover have "length (hexDigest d) = 32" by (simp add: hexDigest_def del: upt_Suc)
  ultimately show ?thesis
    by (simp add: isFingerprint_def list_all_iff)
qed

lemma first16bits_hexDigest: "first16bits (hexDigest d) = unat (drop_bit 112 d)"
proof -
  define x where "x = unat d div 2 ^ 112"
  have xlt: "x < 65536"
  proof -
    have "unat d < 2 ^ 128" using unsigned_less [of d] by simp
    then show ?thesis unfolding x_def by (simp add: less_mult_imp_div_less)
  qed
  have d: "unat (drop_bit 112 d) = x"
  proof -
    have "unat (drop_bit 112 d) = drop_bit 112 (unat d)" by (rule unat_drop_bit_eq)
    then show ?thesis unfolding x_def by (simp only: drop_bit_eq_div)
  qed
  have n: "unat (take_bit 4 (drop_bit (112 + 4 * k) d)) = (x div 16 ^ k) mod 16" for k
  proof -
    have "unat (take_bit 4 (drop_bit (112 + 4 * k) d)) = (unat d div 2 ^ (112 + 4 * k)) mod 2 ^ 4"
    proof -
      have "unat (take_bit 4 (drop_bit (112 + 4 * k) d)) = take_bit 4 (unat (drop_bit (112 + 4 * k) d))"
        by (rule unsigned_take_bit_eq)
      also have "unat (drop_bit (112 + 4 * k) d) = drop_bit (112 + 4 * k) (unat d)"
        by (rule unat_drop_bit_eq)
      finally show ?thesis by (simp only: take_bit_eq_mod drop_bit_eq_div)
    qed
    also have "\<dots> = (x div 16 ^ k) mod 16"
      by (simp add: x_def power_add div_mult2_eq power_mult)
    finally show ?thesis .
  qed
  have "first16bits (hexDigest d) =
      4096 * ((x div 16 ^ 3) mod 16) + 256 * ((x div 16 ^ 2) mod 16) + 16 * ((x div 16 ^ 1) mod 16) + (x div 16 ^ 0) mod 16"
    using n [of 3] n [of 2] n [of 1] n [of 0]
    by (simp add: first16bits_def hexDigest_nth nibble_hexAlphabet)
  also have "\<dots> = x" using xlt hex4_expand [of x] by simp
  finally show ?thesis using d by simp
qed

lemma js_rem_nat: "js_rem (int n) (int m) = int (n mod m)"
  by (cases "n = 0") (simp_all add: js_rem_def zmod_int)

lemma first16bits_ff00: "take 4 h = ''ff00'' \<Longrightarrow> first16bits h = 65280"
proof -
  assume t: "take 4 h = ''ff00''"
  have "h ! i = ''ff00'' ! i" if "i < 4" for i
    using that t nth_take [of i 4 h] by simp
  from this [of 0] this [of 1] this [of 2] this [of 3]
  show ?thesis by (simp add: first16bits_def nibble_def hexAlphabet_def)
qed

text \<open>
  Claim C8. For every server fingerprint (32 lowercase hexadecimal digits) the default
  callback port is \<open>3335 + (v mod 45816)\<close>, where \<open>v\<close> is the number written by the
  first four digits; the port lies between 3335 and 49150; a fingerprint that begins
  \<open>ff00\<close> gives port 22799; and when the fingerprint renders a 128-bit digest, \<open>v\<close> is
  the digest's first 16 bits.
\<close>

theorem calculateDefaultPort_fingerprint:
  "isFingerprint h \<Longrightarrow>
     calculateDefaultPort h = Some (3335 + int (first16bits h mod 45816)) \<and>
     (\<exists>p. calculateDefaultPort h = Some p \<and> 3335 \<le> p \<and> p \<le> 49150) \<and>
     (take 4 h = ''ff00'' \<longrightarrow> calculateDefaultPort h = Some 22799) \<and>
     (\<forall>d. h = hexDigest d \<longrightarrow> first16bits h = unat (drop_bit 112 d))"
proof -
  assume fp: "isFingerprint h"
  have port: "calculateDefaultPort h = Some (3335 + int (first16bits h mod 45816))"
    using parseInt16_fingerprint(1) [OF fp] js_rem_nat [of "first16bits h" 45816]
    by (simp add: calculateDefaultPort_def)
  have "first16bits h mod 45816 < 45816" by simp
  then have range: "3335 \<le> 3335 + int (first16bits h mod 45816)"
    "3335 + int (first16bits h mod 45816) \<le> 49150" by linarith+
  have ff: "calculateDefaultPort h = Some 22799" if "take 4 h = ''ff00''"
    using port first16bits_ff00 [OF that] by simp
  have dig: "\<forall>d. h = hexDigest d \<longrightarrow> first16bits h = unat (drop_bit 112 d)"
    by (simp add: first16bits_hexDigest)
  from port range have "\<exists>p. calculateDefaultPort h = Some p \<and> 3335 \<le> p \<and> p \<le> 49150"
    by blast
  with port ff dig show ?thesis by (intro conjI impI)
qed

text \<open>The theorem at a fingerprint that begins \<open>ff00\<close>.\<close>

theorem calculateDefaultPort_fingerprint_witness:
  "isFingerprint ''ff00a1b2c3d4e5f60718293a4b5c6d7e'' \<and>
   calculateDefaultPort ''ff00a1b2c3d4e5f60718293a4b5c6d7e'' = Some 22799"
proof -
  have fp: "isFingerprint ''ff00a1b2c3d4e5f60718293a4b5c6d7e''"
    by (simp add: isFingerprint_def hexAlphabet_def)
  from calculateDefaultPort_fingerprint [OF fp]
  have "take 4 ''ff00a1b2c3d4e5f60718293a4b5c6d7e'' = ''ff00'' \<longrightarrow>
        calculateDefaultPort ''ff00a1b2c3d4e5f60718293a4b5c6d7e'' = Some 22799"
    by (elim conjE)
  then have "calculateDefaultPort ''ff00a1b2c3d4e5f60718293a4b5c6d7e'' = Some 22799"
    by simp
  with fp show ?thesis by (rule conjI)
qed

section \<open>Facts about the tool filter\<close>

subsection \<open>Every pattern yields a regular expression\<close>

lemma word_char_facts:
  assumes "isWordChar c"
  shows "c \<noteq> CHR ''^''" and "c \<noteq> CHR ''$''" and "c \<noteq> backslash" and "c \<noteq> CHR ''.''" and "c \<noteq> CHR ''*''"
  using assms by (auto simp: isWordChar_def backslash_def)

lemma backslash_facts:
  "backslash \<noteq> CHR ''^''" "backslash \<noteq> CHR ''$''" "backslash \<noteq> CHR ''*''" "\<not> isWordChar backslash"
  "backslash \<noteq> CHR ''.''"
  by (simp_all add: backslash_def isWordChar_def)

lemma RegExp_new_word:
  "isWordChar c \<Longrightarrow> noStarAhead t \<Longrightarrow> RegExp_new (c # t) = map_option ((#) (Lit c)) (RegExp_new t)"
  by (cases t) (simp_all add: word_char_facts noStarAhead_def)

lemma RegExp_new_escaped:
  "\<not> isWordChar c \<Longrightarrow> noStarAhead t \<Longrightarrow>
     RegExp_new (backslash # c # t) = map_option ((#) (Lit c)) (RegExp_new t)"
  by (cases t) (simp_all add: backslash_facts noStarAhead_def)

lemma noStarAhead_escapePart:
  "noStarAhead t \<Longrightarrow> noStarAhead (escapePart seg @ t)"
  by (cases seg) (auto simp: escapePart_def noStarAhead_def backslash_facts word_char_facts)

lemma escapePart_Cons:
  "escapePart (c # seg) = (if isWordChar c then [c] else [backslash, c]) @ escapePart seg"
  by (simp add: escapePart_def)

lemma RegExp_new_escapePart:
  "noStarAhead t \<Longrightarrow>
     RegExp_new (escapePart seg @ t) = map_option ((@) (map Lit seg)) (RegExp_new t)"
proof (induction seg)
  case Nil
  show ?case by (simp add: escapePart_def option.map_ident)
next
  case (Cons c seg)
  have ahead: "noStarAhead (escapePart seg @ t)"
    using Cons.prems by (rule noStarAhead_escapePart)
  show ?case
  proof (cases "isWordChar c")
    case True
    then show ?thesis
      using RegExp_new_word [OF True ahead] Cons.IH [OF Cons.prems]
      by (simp add: escapePart_Cons option.map_comp comp_def)
  next
    case False
    then show ?thesis
      using RegExp_new_escaped [OF False ahead] Cons.IH [OF Cons.prems]
      by (simp add: escapePart_Cons option.map_comp comp_def)
  qed
qed

lemma RegExp_new_dot_star:
  "RegExp_new (''.*'' @ t) = map_option ((#) (Star Dot)) (RegExp_new t)"
  by (simp add: backslash_def)

lemma RegExp_new_joined:
  "RegExp_new (join ''.*'' (map escapePart segs) @ ''$'') = Some (globNodes segs @ [End])"
proof (induction segs rule: globNodes.induct)
  case 1
  show ?case by (simp add: backslash_def)
next
  case (2 p)
  have "noStarAhead ''$''" by (simp add: noStarAhead_def)
  from RegExp_new_escapePart [OF this, of p] show ?case by (simp add: backslash_def)
next
  case (3 p q ps)
  have "noStarAhead (''.*'' @ join ''.*'' (map escapePart (q # ps)) @ ''$'')"
    by (simp add: noStarAhead_def)
  from RegExp_new_escapePart [OF this, of p] 3 show ?case
    using RegExp_new_dot_star [of "join ''.*'' (map escapePart (q # ps)) @ ''$''"]
    by simp
qed

lemma patternToRegex_nodes:
  "patternToRegex pattern = Some (Start # globNodes (split_on CHR ''*'' pattern) @ [End])"
  using RegExp_new_joined [of "split_on CHR ''*'' pattern"]
  by (simp add: patternToRegex_def regexSource_def)

subsection \<open>What the regular expression of a pattern matches\<close>

lemma RegExp_test_Start: "RegExp_test (Start # ns) s = matchHere ns True s"
proof -
  have "[0..<Suc (length s)] = 0 # [1..<Suc (length s)]"
    by (simp add: upt_rec)
  moreover have "\<not> list_ex (\<lambda>i. matchHere (Start # ns) (i = 0) (drop i s)) [1..<Suc (length s)]"
    by (simp add: list_ex_iff)
  ultimately show ?thesis
    by (simp add: RegExp_test_def)
qed

lemma matchHere_startFree:
  "startFree ns \<Longrightarrow> matchHere ns b s = matchHere ns False s"
proof (induction ns b s rule: matchHere.induct)
  case (4 a r atStart s)
  then show ?case by (cases s) (auto simp: startFree_def)
qed (auto simp: startFree_def split: list.splits)

lemma matchHere_Lit:
  "matchHere (Lit c # r) b s = (\<exists>x xs. s = x # xs \<and> canonicalize x = canonicalize c \<and> matchHere r False xs)"
  by (cases s) simp_all

lemma matchHere_literals:
  assumes "startFree r"
  shows "matchHere (map Lit seg @ r) b s =
           (length seg \<le> length s \<and> map canonicalize (take (length seg) s) = map canonicalize seg \<and>
            matchHere r False (drop (length seg) s))"
proof (induction seg arbitrary: b s)
  case Nil
  show ?case using matchHere_startFree [OF assms] by simp
next
  case (Cons c seg)
  show ?case
    by (cases s) (auto simp: Cons.IH)
qed

lemma matchHere_Star_Dot:
  assumes "startFree r"
  shows "matchHere (Star Dot # r) b s =
           (\<exists>k \<le> length s. (\<forall>c \<in> set (take k s). \<not> isLineTerminator c) \<and> matchHere r False (drop k s))"
proof (induction s arbitrary: b)
  case Nil
  show ?case using matchHere_startFree [OF assms] by simp
next
  case (Cons x xs)
  have here: "matchHere r b (x # xs) = matchHere r False (x # xs)"
    using matchHere_startFree [OF assms] .
  show ?case (is "?L = ?R")
  proof
    assume ?L
    then consider "matchHere r False (x # xs)"
      | "\<not> isLineTerminator x" "matchHere (Star Dot # r) False xs"
      using here by auto
    then show ?R
    proof cases
      case 1
      then have "(\<forall>c \<in> set (take 0 (x # xs)). \<not> isLineTerminator c) \<and> matchHere r False (drop 0 (x # xs))"
        by simp
      then show ?thesis by blast
    next
      case 2
      then obtain k where k: "k \<le> length xs" "\<forall>c \<in> set (take k xs). \<not> isLineTerminator c"
        "matchHere r False (drop k xs)"
        using Cons.IH by blast
      with 2 have "Suc k \<le> length (x # xs) \<and> (\<forall>c \<in> set (take (Suc k) (x # xs)). \<not> isLineTerminator c) \<and>
         matchHere r False (drop (Suc k) (x # xs))" by simp
      then show ?thesis by blast
    qed
  next
    assume ?R
    then obtain k where k: "k \<le> length (x # xs)" "\<forall>c \<in> set (take k (x # xs)). \<not> isLineTerminator c"
      "matchHere r False (drop k (x # xs))" by blast
    show ?L
    proof (cases k)
      case 0
      with k here show ?thesis by simp
    next
      case (Suc j)
      with k have "j \<le> length xs" "\<forall>c \<in> set (take j xs). \<not> isLineTerminator c"
        "matchHere r False (drop j xs)" "\<not> isLineTerminator x" by simp_all
      then have "matchHere (Star Dot # r) False xs" "\<not> isLineTerminator x"
        using Cons.IH by blast+
      then show ?thesis by simp
    qed
  qed
qed

lemma of_char_canonicalize:
  "(of_char (canonicalize c) :: nat) =
     (if 97 \<le> (of_char c :: nat) \<and> (of_char c :: nat) \<le> 122 then of_char c - 32 else of_char c)"
  by (auto simp: canonicalize_def Let_def)

lemma isLineTerminator_canonicalize: "isLineTerminator (canonicalize c) = isLineTerminator c"
  unfolding isLineTerminator_def of_char_canonicalize by auto

lemma lineTerminatorFree_canonical:
  assumes "map canonicalize a = map canonicalize b"
  shows "(\<forall>c \<in> set a. \<not> isLineTerminator c) = (\<forall>c \<in> set b. \<not> isLineTerminator c)"
proof -
  have "(\<forall>c \<in> set xs. \<not> isLineTerminator c) = (\<forall>c \<in> set (map canonicalize xs). \<not> isLineTerminator c)" for xs
    by (simp add: isLineTerminator_canonicalize)
  from this [of a] this [of b] assms show ?thesis by simp
qed

lemma startFree_globNodes: "startFree (globNodes segs @ [End])"
  by (induction segs rule: globNodes.induct) (auto simp: startFree_def)

lemma partsMatch_single: "partsMatch [p] s = (map canonicalize s = map canonicalize p)"
  by (simp add: partsMatch_def)

lemma partsMatch_Cons:
  "partsMatch (p # q # ps) s =
     (\<exists>g. (\<forall>c \<in> set g. \<not> isLineTerminator c) \<and> length p + length g \<le> length s \<and>
        map canonicalize (take (length p) s) = map canonicalize p \<and>
        map canonicalize (take (length g) (drop (length p) s)) = map canonicalize g \<and>
        partsMatch (q # ps) (drop (length g) (drop (length p) s)))"
  (is "?L = ?R")
proof
  assume ?L
  then obtain gaps where len: "length gaps + 1 = length (p # q # ps)"
    and free: "\<forall>g \<in> set gaps. \<forall>c \<in> set g. \<not> isLineTerminator c"
    and eq: "map canonicalize s = map canonicalize (interleave (p # q # ps) gaps)"
    unfolding partsMatch_def by blast
  from len obtain g gs where gaps: "gaps = g # gs" by (cases gaps) auto
  let ?R' = "interleave (q # ps) gs"
  from eq gaps have eq': "map canonicalize s = map canonicalize p @ map canonicalize g @ map canonicalize ?R'"
    by simp
  from arg_cong [OF eq', of length] have l: "length s = length p + length g + length ?R'"
    by simp
  from arg_cong [OF eq', of "take (length p)"]
  have 1: "map canonicalize (take (length p) s) = map canonicalize p"
    by (simp add: take_map)
  from arg_cong [OF eq', of "\<lambda>xs. take (length g) (drop (length p) xs)"]
  have 2: "map canonicalize (take (length g) (drop (length p) s)) = map canonicalize g"
    by (simp add: take_map drop_map)
  from arg_cong [OF eq', of "\<lambda>xs. drop (length g) (drop (length p) xs)"]
  have 3: "map canonicalize (drop (length g) (drop (length p) s)) = map canonicalize ?R'"
    by (simp add: drop_map)
  from len gaps free 3 have "partsMatch (q # ps) (drop (length g) (drop (length p) s))"
    unfolding partsMatch_def by auto
  with 1 2 l free gaps show ?R by auto
next
  assume ?R
  then obtain g where g: "\<forall>c \<in> set g. \<not> isLineTerminator c" "length p + length g \<le> length s"
    and 1: "map canonicalize (take (length p) s) = map canonicalize p"
    and 2: "map canonicalize (take (length g) (drop (length p) s)) = map canonicalize g"
    and rest: "partsMatch (q # ps) (drop (length g) (drop (length p) s))" by blast
  from rest obtain gs where len: "length gs + 1 = length (q # ps)"
    and free: "\<forall>g \<in> set gs. \<forall>c \<in> set g. \<not> isLineTerminator c"
    and 3: "map canonicalize (drop (length g) (drop (length p) s)) = map canonicalize (interleave (q # ps) gs)"
    unfolding partsMatch_def by blast
  have "s = take (length p) s @ take (length g) (drop (length p) s) @ drop (length g) (drop (length p) s)"
    by (simp only: append_take_drop_id)
  then have "map canonicalize s = map canonicalize (take (length p) s) @
      map canonicalize (take (length g) (drop (length p) s)) @
      map canonicalize (drop (length g) (drop (length p) s))"
    by (metis map_append)
  with 1 2 3 have "map canonicalize s = map canonicalize (interleave (p # q # ps) (g # gs))"
    by simp
  moreover have "length (g # gs) + 1 = length (p # q # ps)" using len by simp
  moreover have "\<forall>h \<in> set (g # gs). \<forall>c \<in> set h. \<not> isLineTerminator c" using g free by simp
  ultimately show ?L unfolding partsMatch_def by blast
qed

lemma canonical_prefix_length:
  "map canonicalize s = map canonicalize p \<longleftrightarrow>
     length p \<le> length s \<and> map canonicalize (take (length p) s) = map canonicalize p \<and> drop (length p) s = []"
  by (metis drop_eq_Nil length_map order_refl take_all)

lemma matchHere_globNodes:
  "segs \<noteq> [] \<Longrightarrow> matchHere (globNodes segs @ [End]) b s = partsMatch segs s"
proof (induction segs arbitrary: b s rule: globNodes.induct)
  case 1
  then show ?case by simp
next
  case (2 p)
  have "startFree [End]" by (simp add: startFree_def)
  from matchHere_literals [OF this, of p b s] show ?case
    using canonical_prefix_length [of s p] by (simp add: partsMatch_single)
next
  case (3 p q ps)
  let ?r = "globNodes (q # ps) @ [End]"
  have sf: "startFree (Star Dot # ?r)"
    using startFree_globNodes [of "q # ps"] by (simp add: startFree_def)
  have ih: "matchHere ?r b' s' = partsMatch (q # ps) s'" for b' s'
    using 3 by simp
  have "matchHere (globNodes (p # q # ps) @ [End]) b s =
      (length p \<le> length s \<and> map canonicalize (take (length p) s) = map canonicalize p \<and>
       matchHere (Star Dot # ?r) False (drop (length p) s))"
    using matchHere_literals [OF sf, of p b s] by simp
  also have "\<dots> = (length p \<le> length s \<and> map canonicalize (take (length p) s) = map canonicalize p \<and>
       (\<exists>k \<le> length (drop (length p) s). (\<forall>c \<in> set (take k (drop (length p) s)). \<not> isLineTerminator c) \<and>
          partsMatch (q # ps) (drop k (drop (length p) s))))"
    using matchHere_Star_Dot [OF startFree_globNodes, of "q # ps" False "drop (length p) s"] ih
    by simp
  also have "\<dots> = partsMatch (p # q # ps) s" (is "?A = ?B")
  proof
    assume ?A
    then obtain k where k: "length p \<le> length s" "map canonicalize (take (length p) s) = map canonicalize p"
      "k \<le> length (drop (length p) s)" "\<forall>c \<in> set (take k (drop (length p) s)). \<not> isLineTerminator c"
      "partsMatch (q # ps) (drop k (drop (length p) s))" by blast
    let ?g = "take k (drop (length p) s)"
    have lg: "length ?g = k" using k(3) by simp
    have "(\<forall>c \<in> set ?g. \<not> isLineTerminator c) \<and> length p + length ?g \<le> length s \<and>
        map canonicalize (take (length p) s) = map canonicalize p \<and>
        map canonicalize (take (length ?g) (drop (length p) s)) = map canonicalize ?g \<and>
        partsMatch (q # ps) (drop (length ?g) (drop (length p) s))"
      unfolding lg using k by simp
    then show ?B unfolding partsMatch_Cons by blast
  next
    assume ?B
    then obtain g where g: "\<forall>c \<in> set g. \<not> isLineTerminator c" "length p + length g \<le> length s"
      "map canonicalize (take (length p) s) = map canonicalize p"
      "map canonicalize (take (length g) (drop (length p) s)) = map canonicalize g"
      "partsMatch (q # ps) (drop (length g) (drop (length p) s))"
      unfolding partsMatch_Cons by blast
    from lineTerminatorFree_canonical [OF g(4)] g(1)
    have "\<forall>c \<in> set (take (length g) (drop (length p) s)). \<not> isLineTerminator c" by simp
    moreover have "length g \<le> length (drop (length p) s)" using g(2) by simp
    ultimately show ?A using g by auto
  qed
  finally show ?case .
qed

subsection \<open>The filter as a whole\<close>

lemma split_on_not_Nil: "split_on sep s \<noteq> []"
  by (induction s) (auto split: list.splits)

lemma patternMatches_globMatches: "patternMatches pattern name = globMatches pattern name"
  using matchHere_globNodes [OF split_on_not_Nil, of "CHR ''*''" pattern True name]
  by (simp add: patternMatches_def patternToRegex_nodes RegExp_test_Start globMatches_def)

lemma ignoreLoop_result:
  "ignoreLoop ps name = Some (\<not> (\<exists>p \<in> set ps. patternMatches p name))"
  by (induction ps) (auto simp: patternMatches_def patternToRegex_nodes)

text \<open>
  Claim C3. \<open>shouldIncludeTool\<close> never throws; it returns false exactly when the regular
  expression built from one of the patterns (split at the asterisks, every part escaped,
  the parts joined by \<open>.*\<close>, anchored at both ends, letter case ignored) matches the name;
  that match is the specification's glob match; and with an empty or a missing pattern
  list every name is included.
\<close>

theorem shouldIncludeTool_iff:
  "shouldIncludeTool None name = Some True \<and>
   shouldIncludeTool (Some []) name = Some True \<and>
   (shouldIncludeTool (Some ps) name = Some False \<longleftrightarrow> (\<exists>p \<in> set ps. patternMatches p name)) \<and>
   (shouldIncludeTool (Some ps) name = Some True \<longleftrightarrow> \<not> (\<exists>p \<in> set ps. patternMatches p name)) \<and>
   (\<exists>regex. patternToRegex p = Some regex \<and> RegExp_test regex name = globMatches p name)"
proof -
  have "shouldIncludeTool (Some ps) name = Some (\<not> (\<exists>p \<in> set ps. patternMatches p name))"
    by (cases ps) (simp_all add: shouldIncludeTool_def ignoreLoop_result del: ignoreLoop.simps)
  moreover have "\<exists>regex. patternToRegex p = Some regex \<and> RegExp_test regex name = globMatches p name"
    using patternMatches_globMatches [of p name]
    by (simp add: patternMatches_def patternToRegex_nodes)
  ultimately show ?thesis
    by (simp add: shouldIncludeTool_def)
qed

text \<open>The theorem at the patterns \<open>delete*\<close> and \<open>*account\<close> and the name \<open>getAccount\<close>.\<close>

theorem shouldIncludeTool_iff_witness:
  "shouldIncludeTool (Some [''delete*'', ''*account'']) ''getAccount'' = Some False \<and>
   shouldIncludeTool (Some [''delete*'', ''*account'']) ''listTasks'' = Some True"
proof -
  have 1: "\<exists>p \<in> set [''delete*'', ''*account'']. patternMatches p ''getAccount''"
    by code_simp
  have 2: "\<not> (\<exists>p \<in> set [''delete*'', ''*account'']. patternMatches p ''listTasks'')"
    by code_simp
  from 1 shouldIncludeTool_iff [of "''getAccount''" "[''delete*'', ''*account'']" "[]"]
  have "shouldIncludeTool (Some [''delete*'', ''*account'']) ''getAccount'' = Some False"
    by blast
  moreover from 2 shouldIncludeTool_iff [of "''listTasks''" "[''delete*'', ''*account'']" "[]"]
  have "shouldIncludeTool (Some [''delete*'', ''*account'']) ''listTasks'' = Some True"
    by blast
  ultimately show ?thesis by (rule conjI)
qed

section \<open>Facts about the proxy router\<close>

lemma shouldIncludeTool_Some:
  "shouldIncludeTool (Some ps) n = Some (\<not> (\<exists>p \<in> set ps. patternMatches p n))"
  by (cases ps) (simp_all add: shouldIncludeTool_def ignoreLoop_result del: ignoreLoop.simps)

lemma filterTools_filter:
  "filterTools ig ts = Inr (filter (\<lambda>t. \<not> (\<exists>p \<in> set ig. patternMatches p (tool_name t))) ts)"
  by (induction ts) (simp_all add: shouldIncludeTool_Some)

lemma calledTool_Some:
  "msgMethod m = Some ''tools/call'' \<Longrightarrow> msgParams m = Some p \<Longrightarrow> paramsName p = Some n \<Longrightarrow> n \<noteq> [] \<Longrightarrow>
     calledTool m = Some n"
  by (simp add: calledTool_def truthy_def)

lemma truthyId_cases:
  "truthyId i \<Longrightarrow> \<exists>k. i = Some k \<and> truthyId (Some k)"
  by (cases i) simp_all

lemma onClientMessage_blocked:
  assumes "msgMethod m = Some ''tools/call''" and "msgId m = Some i" and "truthyId (Some i)"
    and "msgParams m = Some p" and "paramsName p = Some n" and "n \<noteq> []"
    and "shouldIncludeTool (Some ig) n = Some False"
  shows "onClientMessage v ig st m =
           st\<lparr>pendingRequests := (pendingRequests st)(i \<mapsto> m),
              sentToClient := sentToClient st @ [Refused (notAvailable (Some i) n)]\<rparr>"
  using assms calledTool_Some [of m p n]
  by (simp add: onClientMessage_def interceptRequest_def transformRequestFunction_def Let_def)

lemma onClientMessage_included:
  assumes "msgMethod m = Some ''tools/call''"
    and "msgParams m = Some p" and "paramsName p = Some n"
    and "shouldIncludeTool (Some ig) n = Some True"
  shows "sentToServer (onClientMessage v ig st m) = sentToServer st @ [m]"
    and "sentToClient (onClientMessage v ig st m) = sentToClient st"
    and "thrown (onClientMessage v ig st m) = thrown st"
  using assms
  by (auto simp: onClientMessage_def interceptRequest_def transformRequestFunction_def Let_def
      calledTool_def split: option.splits)

lemma onClientMessage_falsy_id:
  assumes "\<not> truthyId (msgId m)" and "msgMethod m \<noteq> Some ''initialize''"
  shows "onClientMessage v ig st m = st\<lparr>sentToServer := sentToServer st @ [m]\<rparr>"
  using assms
  by (auto simp: onClientMessage_def interceptRequest_def split: option.splits)

lemma onClientMessage_no_name:
  assumes "msgMethod m = Some ''tools/call''" and "msgParams m = Some p" and "\<not> truthy (paramsName p)"
  shows "sentToServer (onClientMessage v ig st m) = sentToServer st @ [m]"
    and "sentToClient (onClientMessage v ig st m) = sentToClient st"
  using assms
  by (auto simp: onClientMessage_def interceptRequest_def transformRequestFunction_def Let_def
      calledTool_def split: option.splits)

lemma onServerMessage_falsy_id:
  assumes "\<not> truthyId (msgId m)"
  shows "onServerMessage ig st m = st\<lparr>sentToClient := sentToClient st @ [Relayed m]\<rparr>"
  using assms
  by (auto simp: onServerMessage_def interceptResponse_def split: option.splits)

subsection \<open>Calls of ignored tools\<close>

text \<open>
  Claim C4, as amended. A \<open>tools/call\<close> request whose id is truthy and whose tool name is
  a non-empty string excluded by the filter is not sent to the server, and the client
  gets exactly the error response with the request's id, the code -32603 and the message
  \<open>Tool "<name>" is not available\<close>. A \<open>tools/call\<close> whose name is included goes to the server
  unchanged. A \<open>tools/call\<close> without an id, or with an empty name, goes to the server
  unchanged without a look at the filter.
\<close>

theorem tools_call_filter:
  "msgMethod m = Some ''tools/call'' \<Longrightarrow> msgParams m = Some p \<Longrightarrow> paramsName p = Some n \<Longrightarrow>
   (truthyId (msgId m) \<and> n \<noteq> [] \<and> shouldIncludeTool (Some ig) n = Some False \<longrightarrow>
      sentToServer (onClientMessage v ig st m) = sentToServer st \<and>
      sentToClient (onClientMessage v ig st m) =
        sentToClient st @
          [Refused \<lparr>jsonrpc = ''2.0'', errId = msgId m, errCode = - 32603,
             errMessage = ''Tool '' @ [CHR 0x22] @ n @ [CHR 0x22] @ '' is not available''\<rparr>]) \<and>
   (shouldIncludeTool (Some ig) n = Some True \<longrightarrow>
      sentToServer (onClientMessage v ig st m) = sentToServer st @ [m] \<and>
      sentToClient (onClientMessage v ig st m) = sentToClient st) \<and>
   (msgId m = None \<or> n = [] \<longrightarrow>
      sentToServer (onClientMessage v ig st m) = sentToServer st @ [m] \<and>
      sentToClient (onClientMessage v ig st m) = sentToClient st)"
proof (intro conjI impI)
  assume m: "msgMethod m = Some ''tools/call''" "msgParams m = Some p" "paramsName p = Some n"
  {
    assume b: "truthyId (msgId m) \<and> n \<noteq> [] \<and> shouldIncludeTool (Some ig) n = Some False"
    then obtain i where i: "msgId m = Some i" "truthyId (Some i)"
      using truthyId_cases by blast
    from onClientMessage_blocked [OF m(1) i m(2) m(3), of ig v st] b
    have eq: "onClientMessage v ig st m =
        st\<lparr>pendingRequests := (pendingRequests st)(i \<mapsto> m),
           sentToClient := sentToClient st @ [Refused (notAvailable (Some i) n)]\<rparr>"
      by simp
    show "sentToServer (onClientMessage v ig st m) = sentToServer st"
      by (simp add: eq)
    show "sentToClient (onClientMessage v ig st m) =
        sentToClient st @
          [Refused \<lparr>jsonrpc = ''2.0'', errId = msgId m, errCode = - 32603,
             errMessage = ''Tool '' @ [CHR 0x22] @ n @ [CHR 0x22] @ '' is not available''\<rparr>]"
      by (simp add: eq notAvailable_def i)
  }
  {
    assume "shouldIncludeTool (Some ig) n = Some True"
    from onClientMessage_included [OF m this]
    show "sentToServer (onClientMessage v ig st m) = sentToServer st @ [m]"
      and "sentToClient (onClientMessage v ig st m) = sentToClient st"
      by simp_all
  }
  {
    assume d: "msgId m = None \<or> n = []"
    have "sentToServer (onClientMessage v ig st m) = sentToServer st @ [m] \<and>
          sentToClient (onClientMessage v ig st m) = sentToClient st"
    proof (cases "n = []")
      case True
      then have "\<not> truthy (paramsName p)" using m(3) by (simp add: truthy_def)
      from onClientMessage_no_name [OF m(1) m(2) this] show ?thesis by simp
    next
      case False
      with d have "\<not> truthyId (msgId m)" by simp
      from onClientMessage_falsy_id [OF this, of v ig st] m(1) show ?thesis by simp
    qed
    then show "sentToServer (onClientMessage v ig st m) = sentToServer st @ [m]"
      and "sentToClient (onClientMessage v ig st m) = sentToClient st"
      by simp_all
  }
qed

text \<open>The theorem at the call of \<open>deleteTask\<close> with the id \<open>"3"\<close> and the pattern \<open>delete*\<close>.\<close>

theorem tools_call_filter_witness:
  "sentToServer (onClientMessage ''0.1.0'' [''delete*''] newProxy
      (request (Some (StrId ''3'')) ''tools/call'' (Some ''deleteTask''))) = [] \<and>
   sentToClient (onClientMessage ''0.1.0'' [''delete*''] newProxy
      (request (Some (StrId ''3'')) ''tools/call'' (Some ''deleteTask''))) =
     [Refused \<lparr>jsonrpc = ''2.0'', errId = Some (StrId ''3''), errCode = - 32603,
        errMessage = ''Tool '' @ [CHR 0x22] @ ''deleteTask'' @ [CHR 0x22] @ '' is not available''\<rparr>]"
proof -
  let ?m = "request (Some (StrId ''3'')) ''tools/call'' (Some ''deleteTask'')"
  let ?p = "\<lparr>paramsName = Some ''deleteTask'', paramsClientInfo = None, paramsOther = []\<rparr>"
  have ex: "shouldIncludeTool (Some [''delete*'']) ''deleteTask'' = Some False"
    by code_simp
  have "msgMethod ?m = Some ''tools/call''" "msgParams ?m = Some ?p" "paramsName ?p = Some ''deleteTask''"
    by (simp_all add: request_def)
  from tools_call_filter [OF this, of "[''delete*'']" "''0.1.0''" newProxy] ex
  show ?thesis by (simp add: request_def newProxy_def)
qed

text \<open>
  The claim as it stands fails: a call of the excluded tool \<open>deleteTask\<close> that has no id
  goes to the server and the client gets nothing; so does a call with the id \<open>"3"\<close> and
  the empty name, which the pattern \<open>*\<close> excludes.
\<close>

theorem tools_call_filter_counterexample:
  "shouldIncludeTool (Some [''delete*'']) ''deleteTask'' = Some False \<and>
   sentToServer (onClientMessage ''0.1.0'' [''delete*''] newProxy
      (request None ''tools/call'' (Some ''deleteTask''))) =
     [request None ''tools/call'' (Some ''deleteTask'')] \<and>
   sentToClient (onClientMessage ''0.1.0'' [''delete*''] newProxy
      (request None ''tools/call'' (Some ''deleteTask''))) = [] \<and>
   shouldIncludeTool (Some [''*'']) [] = Some False \<and>
   sentToServer (onClientMessage ''0.1.0'' [''*''] newProxy
      (request (Some (StrId ''3'')) ''tools/call'' (Some []))) =
     [request (Some (StrId ''3'')) ''tools/call'' (Some [])] \<and>
   sentToClient (onClientMessage ''0.1.0'' [''*''] newProxy
      (request (Some (StrId ''3'')) ''tools/call'' (Some []))) = []"
proof -
  have 1: "shouldIncludeTool (Some [''delete*'']) ''deleteTask'' = Some False"
    and 2: "shouldIncludeTool (Some [''*'']) [] = Some False"
    by code_simp+
  let ?a = "request None ''tools/call'' (Some ''deleteTask'')"
  have "\<not> truthyId (msgId ?a)" "msgMethod ?a \<noteq> Some ''initialize''"
    by (simp_all add: request_def)
  from onClientMessage_falsy_id [OF this, of "''0.1.0''" "[''delete*'']" newProxy]
  have 3: "sentToServer (onClientMessage ''0.1.0'' [''delete*''] newProxy ?a) = [?a]"
    and 4: "sentToClient (onClientMessage ''0.1.0'' [''delete*''] newProxy ?a) = []"
    by (simp_all add: newProxy_def)
  let ?c = "request (Some (StrId ''3'')) ''tools/call'' (Some [])"
  let ?p = "\<lparr>paramsName = Some [], paramsClientInfo = None, paramsOther = []\<rparr>"
  have "msgMethod ?c = Some ''tools/call''" "msgParams ?c = Some ?p" "\<not> truthy (paramsName ?p)"
    by (simp_all add: request_def truthy_def)
  from onClientMessage_no_name [OF this, of "''0.1.0''" "[''*'']" newProxy]
  have 5: "sentToServer (onClientMessage ''0.1.0'' [''*''] newProxy ?c) = [?c]"
    and 6: "sentToClient (onClientMessage ''0.1.0'' [''*''] newProxy ?c) = []"
    by (simp_all add: newProxy_def)
  from 1 2 3 4 5 6 show ?thesis by (intro conjI)
qed

subsection \<open>The table of pending requests\<close>

lemma onClientMessage_records:
  assumes "msgId m = Some i" and "truthyId (Some i)" and "msgMethod m \<noteq> Some ''initialize''"
  shows "pendingRequests (onClientMessage v ig st m) = (pendingRequests st)(i \<mapsto> m)"
  using assms
  by (auto simp: onClientMessage_def interceptRequest_def transformRequestFunction_def Let_def
      split: option.splits bool.splits)

lemma onServerMessage_removes:
  assumes "msgId r = Some i" and "truthyId (Some i)"
  shows "pendingRequests (onServerMessage ig st r) = (pendingRequests st)(i := None)"
  using assms
  by (auto simp: onServerMessage_def interceptResponse_def Let_def split: sum.splits)

lemma blocked_call_recorded:
  assumes "msgMethod m = Some ''tools/call''" and "msgId m = Some i" and "truthyId (Some i)"
    and "msgParams m = Some p" and "paramsName p = Some n" and "n \<noteq> []"
    and "shouldIncludeTool (Some ig) n = Some False"
  shows "pendingRequests (onClientMessage v ig st m) i = Some m"
    and "sentToServer (onClientMessage v ig st m) = sentToServer st"
  using onClientMessage_blocked [OF assms, of v st] by simp_all

text \<open>
  Claim C7 at its failing input. The pattern is \<open>delete*\<close> and the session is one call of
  \<open>deleteTask\<close> with the id \<open>"3"\<close>. Nothing was sent to the server, so every forwarded
  request has been answered, and the call is still in the table: \<open>interceptRequest\<close>
  records a request before the filter blocks it, and only a response from the server
  removes an entry.
\<close>

theorem blocked_call_stays_pending:
  "sentToServer (mcpProxy ''0.1.0'' [''delete*'']
      [FromClient (request (Some (StrId ''3'')) ''tools/call'' (Some ''deleteTask''))]) = [] \<and>
   pendingRequests (mcpProxy ''0.1.0'' [''delete*'']
      [FromClient (request (Some (StrId ''3'')) ''tools/call'' (Some ''deleteTask''))]) (StrId ''3'') =
     Some (request (Some (StrId ''3'')) ''tools/call'' (Some ''deleteTask'')) \<and>
   pendingRequests (mcpProxy ''0.1.0'' [''delete*'']
      [FromClient (request (Some (StrId ''3'')) ''tools/call'' (Some ''deleteTask''))]) \<noteq> Map.empty"
proof -
  let ?m = "request (Some (StrId ''3'')) ''tools/call'' (Some ''deleteTask'')"
  let ?p = "\<lparr>paramsName = Some ''deleteTask'', paramsClientInfo = None, paramsOther = []\<rparr>"
  have ex: "shouldIncludeTool (Some [''delete*'']) ''deleteTask'' = Some False"
    by code_simp
  have m: "msgMethod ?m = Some ''tools/call''" "msgId ?m = Some (StrId ''3'')" "truthyId (Some (StrId ''3''))"
    "msgParams ?m = Some ?p" "paramsName ?p = Some ''deleteTask''" "''deleteTask'' \<noteq> []"
    by (simp_all add: request_def)
  have run: "mcpProxy ''0.1.0'' [''delete*''] [FromClient ?m] = onClientMessage ''0.1.0'' [''delete*''] newProxy ?m"
    by (simp add: mcpProxy_def)
  from blocked_call_recorded [OF m ex, of "''0.1.0''" newProxy]
  have 1: "pendingRequests (mcpProxy ''0.1.0'' [''delete*''] [FromClient ?m]) (StrId ''3'') = Some ?m"
    and 2: "sentToServer (mcpProxy ''0.1.0'' [''delete*''] [FromClient ?m]) = []"
    unfolding run by (simp_all add: newProxy_def)
  from 1 have 3: "pendingRequests (mcpProxy ''0.1.0'' [''delete*''] [FromClient ?m]) \<noteq> Map.empty"
    by (metis option.distinct(1))
  from 2 1 3 show ?thesis by (intro conjI)
qed

subsection \<open>Falsy ids\<close>

text \<open>
  Claim C10. A message whose id is missing, \<open>null\<close>, \<open>0\<close> or the empty string is treated
  as a message without an id: as a request it is passed on and the table stays as it is,
  as a response it is passed on without a look at the table. So when a \<open>tools/list\<close>
  request and its response both have the id \<open>0\<close>, the client gets the response as the
  server sent it, whatever the patterns are.
\<close>

theorem falsy_id_bypasses_correlation:
  "\<not> truthyId (msgId m) \<Longrightarrow>
     interceptRequest ig st m = (st, Inr (Passed m)) \<and>
     pendingRequests (onClientMessage v ig st m) = pendingRequests st \<and>
     interceptResponse ig st m = (st, Inr m) \<and>
     onServerMessage ig st m = st\<lparr>sentToClient := sentToClient st @ [Relayed m]\<rparr> \<and>
     (\<forall>q. msgId q = Some (NumId 0) \<and> msgMethod q = Some ''tools/list'' \<longrightarrow>
        sentToClient (mcpProxy v ig [FromClient q, FromServer m]) = [Relayed m])"
proof (intro conjI allI impI)
  assume f: "\<not> truthyId (msgId m)"
  show "interceptRequest ig st m = (st, Inr (Passed m))"
    using f by (auto simp: interceptRequest_def split: option.splits)
  then show "pendingRequests (onClientMessage v ig st m) = pendingRequests st"
    using f by (auto simp: onClientMessage_def Let_def split: option.splits)
  show "interceptResponse ig st m = (st, Inr m)"
    using f by (auto simp: interceptResponse_def split: option.splits)
  show "onServerMessage ig st m = st\<lparr>sentToClient := sentToClient st @ [Relayed m]\<rparr>"
    using f by (rule onServerMessage_falsy_id)
  fix q :: message
  assume q: "msgId q = Some (NumId 0) \<and> msgMethod q = Some ''tools/list''"
  then have "\<not> truthyId (msgId q)" "msgMethod q \<noteq> Some ''initialize''" by simp_all
  from onClientMessage_falsy_id [OF this, of v ig newProxy] onServerMessage_falsy_id [OF f, of ig]
  show "sentToClient (mcpProxy v ig [FromClient q, FromServer m]) = [Relayed m]"
    by (simp add: mcpProxy_def newProxy_def)
qed

text \<open>The theorem at a response with the id \<open>0\<close> that lists \<open>deleteTask\<close>, under the pattern \<open>delete*\<close>.\<close>

theorem falsy_id_bypasses_correlation_witness:
  "shouldIncludeTool (Some [''delete*'']) ''deleteTask'' = Some False \<and>
   sentToClient (mcpProxy ''0.1.0'' [''delete*'']
      [FromClient (request (Some (NumId 0)) ''tools/list'' None),
       FromServer (toolsResponse (Some (NumId 0)) [''createTask'', ''deleteTask''])]) =
     [Relayed (toolsResponse (Some (NumId 0)) [''createTask'', ''deleteTask''])]"
proof -
  let ?r = "toolsResponse (Some (NumId 0)) [''createTask'', ''deleteTask'']"
  let ?q = "request (Some (NumId 0)) ''tools/list'' None"
  have ex: "shouldIncludeTool (Some [''delete*'']) ''deleteTask'' = Some False"
    by code_simp
  have f: "\<not> truthyId (msgId ?r)" by (simp add: toolsResponse_def)
  have q: "msgId ?q = Some (NumId 0) \<and> msgMethod ?q = Some ''tools/list''"
    by (simp add: request_def)
  from falsy_id_bypasses_correlation [OF f, of "[''delete*'']" newProxy "''0.1.0''"] q
  have "sentToClient (mcpProxy ''0.1.0'' [''delete*''] [FromClient ?q, FromServer ?r]) = [Relayed ?r]"
    by blast
  with ex show ?thesis by (rule conjI)
qed

section \<open>Facts about the transport selector\<close>

lemma connect_connected:
  "attempt env n (transportOf s) = None \<Longrightarrow>
     connectToRemoteServer env n s rs = (Connected (transportOf s), [UsingStrategy s, ConnectedUsing (transportOf s)])"
  by (subst connectToRemoteServer.simps) (simp add: Let_def)

lemma connect_fallback:
  assumes "attempt env n (transportOf s) = Some e" and "shouldAttemptFallback s" and "fallbackError e"
    and "REASON_TRANSPORT_FALLBACK \<notin> rs"
  shows "connectToRemoteServer env n s rs =
     (fst (connectToRemoteServer env (Suc n) (if sseTransport s then HttpOnly else SseOnly)
              (insert REASON_TRANSPORT_FALLBACK rs)),
      [UsingStrategy s, ReceivedError (errorMessage e), Reconnecting REASON_TRANSPORT_FALLBACK] @
      snd (connectToRemoteServer env (Suc n) (if sseTransport s then HttpOnly else SseOnly)
              (insert REASON_TRANSPORT_FALLBACK rs)))"
  using assms
  by (subst connectToRemoteServer.simps) (simp add: Let_def split: prod.splits)

lemma connect_already_fallback:
  assumes "attempt env n (transportOf s) = Some e" and "shouldAttemptFallback s" and "fallbackError e"
    and "REASON_TRANSPORT_FALLBACK \<in> rs"
  shows "connectToRemoteServer env n s rs =
     (Threw alreadyFallback,
      [UsingStrategy s, ReceivedError (errorMessage e), AlreadyAttempted REASON_TRANSPORT_FALLBACK])"
  using assms
  by (subst connectToRemoteServer.simps) (simp add: Let_def)

lemma connect_rethrown:
  assumes "attempt env n (transportOf s) = Some e" and "\<not> (shouldAttemptFallback s \<and> fallbackError e)"
    and "\<not> unauthorizedError e"
  shows "connectToRemoteServer env n s rs = (Threw e, [UsingStrategy s, ConnectionError])"
  using assms
  by (subst connectToRemoteServer.simps) (auto simp: Let_def)

lemma connect_auth:
  assumes "attempt env n (transportOf s) = Some e" and "\<not> (shouldAttemptFallback s \<and> fallbackError e)"
    and "unauthorizedError e" and "authorize env n = Authorized" and "REASON_AUTH_NEEDED \<notin> rs"
  shows "connectToRemoteServer env n s rs =
     (fst (connectToRemoteServer env (Suc n) s (insert REASON_AUTH_NEEDED rs)),
      [UsingStrategy s, AuthenticationRequired, Reconnecting REASON_AUTH_NEEDED] @
      snd (connectToRemoteServer env (Suc n) s (insert REASON_AUTH_NEEDED rs)))"
  using assms
  by (subst connectToRemoteServer.simps) (auto simp: Let_def split: prod.splits)

lemma connect_no_fallback_left:
  "shouldAttemptFallback s \<longrightarrow> REASON_TRANSPORT_FALLBACK \<notin> rs \<Longrightarrow>
     AlreadyAttempted REASON_TRANSPORT_FALLBACK \<notin> set (snd (connectToRemoteServer env n s rs)) \<and>
     fallbacks (snd (connectToRemoteServer env n s rs)) \<le> (if shouldAttemptFallback s then 1 else 0) \<and>
     (\<not> shouldAttemptFallback s \<longrightarrow> set (strategiesTried (snd (connectToRemoteServer env n s rs))) \<subseteq> {s})"
proof (induction env n s rs rule: connectToRemoteServer.induct)
  case (1 env n s rs)
  let ?t = "transportOf s"
  show ?case
  proof (cases "attempt env n ?t")
    case None
    then show ?thesis by (simp add: connect_connected fallbacks_def)
  next
    case (Some e)
    show ?thesis
    proof (cases "shouldAttemptFallback s \<and> fallbackError e")
      case True
      with "1.prems" have nf: "REASON_TRANSPORT_FALLBACK \<notin> rs" by simp
      let ?s' = "if sseTransport s then HttpOnly else SseOnly"
      have only: "\<not> shouldAttemptFallback ?s'" by (simp add: shouldAttemptFallback_def)
      from "1.IH"(1) [OF refl Some _ nf] True only
      have ih: "AlreadyAttempted REASON_TRANSPORT_FALLBACK \<notin>
            set (snd (connectToRemoteServer env (Suc n) ?s' (insert REASON_TRANSPORT_FALLBACK rs)))"
        "fallbacks (snd (connectToRemoteServer env (Suc n) ?s' (insert REASON_TRANSPORT_FALLBACK rs))) \<le> 0"
        by auto
      from True have sf: "shouldAttemptFallback s" "fallbackError e" by simp_all
      show ?thesis
        unfolding connect_fallback [OF Some sf nf]
        using ih sf by (simp add: fallbacks_def)
    next
      case False
      show ?thesis
      proof (cases "unauthorizedError e")
        case nu: False
        show ?thesis
          unfolding connect_rethrown [OF Some False nu] by (simp add: fallbacks_def)
      next
        case u: True
        show ?thesis
        proof (cases "authorize env n")
          case Authorized
          show ?thesis
          proof (cases "REASON_AUTH_NEEDED \<in> rs")
            case True
            with Some False u Authorized show ?thesis
              by (subst (1 2 3) connectToRemoteServer.simps) (auto simp: Let_def fallbacks_def)
          next
            case na: False
            from "1.IH"(2) [OF refl Some False u Authorized na] "1.prems"
            have ih: "AlreadyAttempted REASON_TRANSPORT_FALLBACK \<notin>
                set (snd (connectToRemoteServer env (Suc n) s (insert REASON_AUTH_NEEDED rs)))"
              "fallbacks (snd (connectToRemoteServer env (Suc n) s (insert REASON_AUTH_NEEDED rs)))
                 \<le> (if shouldAttemptFallback s then 1 else 0)"
              "\<not> shouldAttemptFallback s \<longrightarrow>
                 set (strategiesTried (snd (connectToRemoteServer env (Suc n) s (insert REASON_AUTH_NEEDED rs)))) \<subseteq> {s}"
              by auto
            show ?thesis
              unfolding connect_auth [OF Some False u Authorized na]
              using ih by (simp add: fallbacks_def)
          qed
        next
          case (InitializerFailed x)
          with Some False u show ?thesis
            by (subst (1 2 3) connectToRemoteServer.simps) (auto simp: Let_def fallbacks_def)
        next
          case (FinishAuthFailed x)
          with Some False u show ?thesis
            by (subst (1 2 3) connectToRemoteServer.simps) (auto simp: Let_def fallbacks_def)
        next
          case CodeNeverArrives
          with Some False u show ?thesis
            by (subst (1 2 3) connectToRemoteServer.simps) (auto simp: Let_def fallbacks_def)
        qed
      qed
    qed
  qed
qed

lemma other_family:
  "shouldAttemptFallback s \<Longrightarrow> transportOf (if sseTransport s then HttpOnly else SseOnly) \<noteq> transportOf s"
  by (cases s) (simp_all add: shouldAttemptFallback_def transportOf_def sseTransport_def)

lemma connect_auth_cases:
  assumes "attempt env n (transportOf s) = Some e" and "\<not> (shouldAttemptFallback s \<and> fallbackError e)"
    and "unauthorizedError e"
  shows "connectToRemoteServer env n s rs =
     (case authorize env n of
        CodeNeverArrives \<Rightarrow> (Waiting, [UsingStrategy s, AuthenticationRequired])
      | InitializerFailed initError \<Rightarrow> (Threw initError, [UsingStrategy s, AuthenticationRequired])
      | FinishAuthFailed authError \<Rightarrow>
          (Threw authError, [UsingStrategy s, AuthenticationRequired, AuthorizationError])
      | Authorized \<Rightarrow>
          if REASON_AUTH_NEEDED \<in> rs then
            (Threw alreadyAuth,
             [UsingStrategy s, AuthenticationRequired, AlreadyAttempted REASON_AUTH_NEEDED, AuthorizationError])
          else
            (fst (connectToRemoteServer env (Suc n) s (insert REASON_AUTH_NEEDED rs)),
             [UsingStrategy s, AuthenticationRequired, Reconnecting REASON_AUTH_NEEDED] @
             snd (connectToRemoteServer env (Suc n) s (insert REASON_AUTH_NEEDED rs))))"
  using assms
  by (subst connectToRemoteServer.simps) (auto simp: Let_def split: prod.splits authOutcome.splits)

lemma connect_auth_starts:
  assumes "attempt env n (transportOf s) = Some e" and "\<not> (shouldAttemptFallback s \<and> fallbackError e)"
    and "unauthorizedError e"
  shows "\<exists>rest. snd (connectToRemoteServer env n s rs) = UsingStrategy s # AuthenticationRequired # rest"
  unfolding connect_auth_cases [OF assms]
  by (simp split: authOutcome.splits)

text \<open>
  Claim C2, as amended. Let an attempt fail with an error whose message contains \<open>404\<close>,
  \<open>405\<close>, \<open>Not Found\<close> or \<open>Method Not Allowed\<close>. With a \<open>*-first\<close> strategy and no
  fallback recorded yet, the function records the fallback and runs once more with the
  \<open>*-only\<close> strategy of the other transport family; that run never falls back again.
  The error \<open>Already attempted transport fallback. Giving up.\<close> is thrown when a call
  with a \<open>*-first\<close> strategy finds the fallback already recorded; a run that starts
  without it never reaches that branch and falls back exactly once. With a \<open>*-only\<close>
  strategy, so also in the retry, there is no fallback whatever the error is: an error
  that is an \<open>UnauthorizedError\<close> or whose message contains \<open>Unauthorized\<close> starts the
  authorization, whose outcome decides the result (it does not return while the code
  is awaited, it throws what \<open>authInitializer\<close> or \<open>finishAuth\<close> throws, and after a
  completed authorization it connects once more with the same strategy, or gives up
  when that was done before); every other error is thrown again as it is.
\<close>

theorem transport_fallback:
  "(\<forall>e. attempt env n (transportOf s) = Some e \<and> fallbackError e \<and>
      shouldAttemptFallback s \<and> REASON_TRANSPORT_FALLBACK \<notin> rs \<longrightarrow>
      (\<exists>s' r logs. s' = (if sseTransport s then HttpOnly else SseOnly) \<and>
         \<not> shouldAttemptFallback s' \<and> transportOf s' \<noteq> transportOf s \<and>
         connectToRemoteServer env (Suc n) s' (insert REASON_TRANSPORT_FALLBACK rs) = (r, logs) \<and>
         connectToRemoteServer env n s rs =
           (r, [UsingStrategy s, ReceivedError (errorMessage e), Reconnecting REASON_TRANSPORT_FALLBACK] @ logs) \<and>
         fallbacks logs = 0 \<and> set (strategiesTried logs) \<subseteq> {s'} \<and>
         (\<forall>e'. attempt env (Suc n) (transportOf s') = Some e' \<and> \<not> unauthorizedError e' \<longrightarrow>
            r = Threw e' \<and> logs = [UsingStrategy s', ConnectionError]) \<and>
         (\<forall>e'. attempt env (Suc n) (transportOf s') = Some e' \<and> unauthorizedError e' \<longrightarrow>
            (\<exists>rest. logs = UsingStrategy s' # AuthenticationRequired # rest))) \<and>
      fallbacks (snd (connectToRemoteServer env n s rs)) = 1 \<and>
      AlreadyAttempted REASON_TRANSPORT_FALLBACK \<notin> set (snd (connectToRemoteServer env n s rs))) \<and>
   (\<forall>e. attempt env n (transportOf s) = Some e \<and> fallbackError e \<and>
      shouldAttemptFallback s \<and> REASON_TRANSPORT_FALLBACK \<in> rs \<longrightarrow>
      fst (connectToRemoteServer env n s rs) = Threw alreadyFallback) \<and>
   (\<not> shouldAttemptFallback s \<longrightarrow>
      fallbacks (snd (connectToRemoteServer env n s rs)) = 0 \<and>
      AlreadyAttempted REASON_TRANSPORT_FALLBACK \<notin> set (snd (connectToRemoteServer env n s rs)) \<and>
      set (strategiesTried (snd (connectToRemoteServer env n s rs))) \<subseteq> {s} \<and>
      (\<forall>e. attempt env n (transportOf s) = Some e \<and> \<not> unauthorizedError e \<longrightarrow>
         connectToRemoteServer env n s rs = (Threw e, [UsingStrategy s, ConnectionError])) \<and>
      (\<forall>e. attempt env n (transportOf s) = Some e \<and> unauthorizedError e \<longrightarrow>
         (\<exists>rest. snd (connectToRemoteServer env n s rs) = UsingStrategy s # AuthenticationRequired # rest) \<and>
         (authorize env n = CodeNeverArrives \<longrightarrow> fst (connectToRemoteServer env n s rs) = Waiting) \<and>
         (\<forall>x. authorize env n = InitializerFailed x \<longrightarrow> fst (connectToRemoteServer env n s rs) = Threw x) \<and>
         (\<forall>x. authorize env n = FinishAuthFailed x \<longrightarrow> fst (connectToRemoteServer env n s rs) = Threw x) \<and>
         (authorize env n = Authorized \<and> REASON_AUTH_NEEDED \<in> rs \<longrightarrow>
            fst (connectToRemoteServer env n s rs) = Threw alreadyAuth) \<and>
         (authorize env n = Authorized \<and> REASON_AUTH_NEEDED \<notin> rs \<longrightarrow>
            connectToRemoteServer env n s rs =
              (fst (connectToRemoteServer env (Suc n) s (insert REASON_AUTH_NEEDED rs)),
               [UsingStrategy s, AuthenticationRequired, Reconnecting REASON_AUTH_NEEDED] @
               snd (connectToRemoteServer env (Suc n) s (insert REASON_AUTH_NEEDED rs))))))"
proof (intro conjI allI impI)
  fix e
  assume h: "attempt env n (transportOf s) = Some e \<and> fallbackError e \<and>
      shouldAttemptFallback s \<and> REASON_TRANSPORT_FALLBACK \<notin> rs"
  then have a: "attempt env n (transportOf s) = Some e" and fe: "fallbackError e"
    and sf: "shouldAttemptFallback s" and nf: "REASON_TRANSPORT_FALLBACK \<notin> rs"
    by simp_all
  define s' where "s' = (if sseTransport s then HttpOnly else SseOnly)"
  let ?c = "connectToRemoteServer env (Suc n) s' (insert REASON_TRANSPORT_FALLBACK rs)"
  have only: "\<not> shouldAttemptFallback s'" by (simp add: s'_def shouldAttemptFallback_def)
  then have pre: "shouldAttemptFallback s' \<longrightarrow> REASON_TRANSPORT_FALLBACK \<notin> insert REASON_TRANSPORT_FALLBACK rs"
    by simp
  from connect_no_fallback_left [OF pre, of env "Suc n"] only
  have inner: "AlreadyAttempted REASON_TRANSPORT_FALLBACK \<notin> set (snd ?c)" "fallbacks (snd ?c) = 0"
    "set (strategiesTried (snd ?c)) \<subseteq> {s'}"
    by auto
  have step: "connectToRemoteServer env n s rs =
      (fst ?c, [UsingStrategy s, ReceivedError (errorMessage e), Reconnecting REASON_TRANSPORT_FALLBACK] @ snd ?c)"
    unfolding s'_def by (rule connect_fallback [OF a sf fe nf])
  have again: "\<forall>e'. attempt env (Suc n) (transportOf s') = Some e' \<and> \<not> unauthorizedError e' \<longrightarrow>
      fst ?c = Threw e' \<and> snd ?c = [UsingStrategy s', ConnectionError]"
  proof (intro allI impI)
    fix e'
    assume "attempt env (Suc n) (transportOf s') = Some e' \<and> \<not> unauthorizedError e'"
    with only have "connectToRemoteServer env (Suc n) s' (insert REASON_TRANSPORT_FALLBACK rs) =
        (Threw e', [UsingStrategy s', ConnectionError])"
      by (intro connect_rethrown) simp_all
    then show "fst ?c = Threw e' \<and> snd ?c = [UsingStrategy s', ConnectionError]" by simp
  qed
  have auth: "\<forall>e'. attempt env (Suc n) (transportOf s') = Some e' \<and> unauthorizedError e' \<longrightarrow>
      (\<exists>rest. snd ?c = UsingStrategy s' # AuthenticationRequired # rest)"
  proof (intro allI impI)
    fix e'
    assume "attempt env (Suc n) (transportOf s') = Some e' \<and> unauthorizedError e'"
    with only show "\<exists>rest. snd ?c = UsingStrategy s' # AuthenticationRequired # rest"
      by (intro connect_auth_starts [of env "Suc n" s' e']) simp_all
  qed
  have other: "transportOf s' \<noteq> transportOf s" unfolding s'_def using sf by (rule other_family)
  have "s' = (if sseTransport s then HttpOnly else SseOnly) \<and>
         \<not> shouldAttemptFallback s' \<and> transportOf s' \<noteq> transportOf s \<and>
         connectToRemoteServer env (Suc n) s' (insert REASON_TRANSPORT_FALLBACK rs) = (fst ?c, snd ?c) \<and>
         connectToRemoteServer env n s rs =
           (fst ?c, [UsingStrategy s, ReceivedError (errorMessage e), Reconnecting REASON_TRANSPORT_FALLBACK] @ snd ?c) \<and>
         fallbacks (snd ?c) = 0 \<and> set (strategiesTried (snd ?c)) \<subseteq> {s'} \<and>
         (\<forall>e'. attempt env (Suc n) (transportOf s') = Some e' \<and> \<not> unauthorizedError e' \<longrightarrow>
            fst ?c = Threw e' \<and> snd ?c = [UsingStrategy s', ConnectionError]) \<and>
         (\<forall>e'. attempt env (Suc n) (transportOf s') = Some e' \<and> unauthorizedError e' \<longrightarrow>
            (\<exists>rest. snd ?c = UsingStrategy s' # AuthenticationRequired # rest))"
    by (intro conjI) (rule s'_def only other prod.collapse [symmetric] step inner(2) inner(3) again auth)+
  then show "\<exists>s' r logs. s' = (if sseTransport s then HttpOnly else SseOnly) \<and>
         \<not> shouldAttemptFallback s' \<and> transportOf s' \<noteq> transportOf s \<and>
         connectToRemoteServer env (Suc n) s' (insert REASON_TRANSPORT_FALLBACK rs) = (r, logs) \<and>
         connectToRemoteServer env n s rs =
           (r, [UsingStrategy s, ReceivedError (errorMessage e), Reconnecting REASON_TRANSPORT_FALLBACK] @ logs) \<and>
         fallbacks logs = 0 \<and> set (strategiesTried logs) \<subseteq> {s'} \<and>
         (\<forall>e'. attempt env (Suc n) (transportOf s') = Some e' \<and> \<not> unauthorizedError e' \<longrightarrow>
            r = Threw e' \<and> logs = [UsingStrategy s', ConnectionError]) \<and>
         (\<forall>e'. attempt env (Suc n) (transportOf s') = Some e' \<and> unauthorizedError e' \<longrightarrow>
            (\<exists>rest. logs = UsingStrategy s' # AuthenticationRequired # rest))"
    by (intro exI [of _ s'] exI [of _ "fst ?c"] exI [of _ "snd ?c"])
  show "fallbacks (snd (connectToRemoteServer env n s rs)) = 1"
    unfolding step using inner(2) by (simp add: fallbacks_def)
  show "AlreadyAttempted REASON_TRANSPORT_FALLBACK \<notin> set (snd (connectToRemoteServer env n s rs))"
    unfolding step using inner(1) by simp
next
  fix e
  assume "attempt env n (transportOf s) = Some e \<and> fallbackError e \<and>
      shouldAttemptFallback s \<and> REASON_TRANSPORT_FALLBACK \<in> rs"
  then show "fst (connectToRemoteServer env n s rs) = Threw alreadyFallback"
    using connect_already_fallback [of env n s e rs] by simp
next
  assume only: "\<not> shouldAttemptFallback s"
  then have pre: "shouldAttemptFallback s \<longrightarrow> REASON_TRANSPORT_FALLBACK \<notin> rs" by simp
  from connect_no_fallback_left [OF pre, of env n] only
  show "fallbacks (snd (connectToRemoteServer env n s rs)) = 0"
    and "AlreadyAttempted REASON_TRANSPORT_FALLBACK \<notin> set (snd (connectToRemoteServer env n s rs))"
    and "set (strategiesTried (snd (connectToRemoteServer env n s rs))) \<subseteq> {s}"
    by auto
next
  fix e
  assume "\<not> shouldAttemptFallback s" and "attempt env n (transportOf s) = Some e \<and> \<not> unauthorizedError e"
  then show "connectToRemoteServer env n s rs = (Threw e, [UsingStrategy s, ConnectionError])"
    by (intro connect_rethrown) simp_all
next
  fix e
  assume only: "\<not> shouldAttemptFallback s" and h: "attempt env n (transportOf s) = Some e \<and> unauthorizedError e"
  then have a: "attempt env n (transportOf s) = Some e" and nf: "\<not> (shouldAttemptFallback s \<and> fallbackError e)"
    and u: "unauthorizedError e"
    by simp_all
  note c = connect_auth_cases [OF a nf u, of rs]
  show "\<exists>rest. snd (connectToRemoteServer env n s rs) = UsingStrategy s # AuthenticationRequired # rest"
    by (rule connect_auth_starts [OF a nf u])
  {
    assume "authorize env n = CodeNeverArrives"
    then show "fst (connectToRemoteServer env n s rs) = Waiting"
      by (simp add: c)
  }
  {
    fix x
    assume "authorize env n = InitializerFailed x"
    then show "fst (connectToRemoteServer env n s rs) = Threw x"
      by (simp add: c)
  }
  {
    fix x
    assume "authorize env n = FinishAuthFailed x"
    then show "fst (connectToRemoteServer env n s rs) = Threw x"
      by (simp add: c)
  }
  {
    assume "authorize env n = Authorized \<and> REASON_AUTH_NEEDED \<in> rs"
    then show "fst (connectToRemoteServer env n s rs) = Threw alreadyAuth"
      by (simp add: c)
  }
  {
    assume "authorize env n = Authorized \<and> REASON_AUTH_NEEDED \<notin> rs"
    then show "connectToRemoteServer env n s rs =
        (fst (connectToRemoteServer env (Suc n) s (insert REASON_AUTH_NEEDED rs)),
         [UsingStrategy s, AuthenticationRequired, Reconnecting REASON_AUTH_NEEDED] @
         snd (connectToRemoteServer env (Suc n) s (insert REASON_AUTH_NEEDED rs)))"
      by (simp add: c)
  }
qed

text \<open>
  The theorem on a run with the strategy \<open>http-first\<close> whose two attempts both fail with
  \<open>HTTP 405\<close>: the second failure is thrown as it is.
\<close>

theorem transport_fallback_witness:
  "connectToRemoteServer (scripted [Some (OtherError ''HTTP 405''), Some (OtherError ''HTTP 405'')]) 0 HttpFirst {} =
     (Threw (OtherError ''HTTP 405''),
      [UsingStrategy HttpFirst, ReceivedError ''HTTP 405'', Reconnecting REASON_TRANSPORT_FALLBACK,
       UsingStrategy SseOnly, ConnectionError])"
proof -
  let ?env = "scripted [Some (OtherError ''HTTP 405''), Some (OtherError ''HTTP 405'')]"
  let ?e = "OtherError ''HTTP 405''"
  have a: "attempt ?env 0 (transportOf HttpFirst) = Some ?e"
    by (simp add: scripted_def)
  have fe: "fallbackError ?e" by (simp add: fallbackError_def)
  have b: "attempt ?env (Suc 0) (transportOf SseOnly) = Some ?e" "\<not> unauthorizedError ?e"
    by (simp_all add: scripted_def)
  have inner: "connectToRemoteServer ?env (Suc 0) SseOnly {REASON_TRANSPORT_FALLBACK} =
      (Threw ?e, [UsingStrategy SseOnly, ConnectionError])"
    using b by (intro connect_rethrown) (simp_all add: shouldAttemptFallback_def)
  have pre: "attempt ?env 0 (transportOf HttpFirst) = Some ?e \<and> fallbackError ?e \<and>
      shouldAttemptFallback HttpFirst \<and> REASON_TRANSPORT_FALLBACK \<notin> {}"
    using a fe by (simp add: shouldAttemptFallback_def)
  from transport_fallback [of ?env 0 HttpFirst "{}"]
  have "\<forall>e. attempt ?env 0 (transportOf HttpFirst) = Some e \<and> fallbackError e \<and>
      shouldAttemptFallback HttpFirst \<and> REASON_TRANSPORT_FALLBACK \<notin> {} \<longrightarrow>
      (\<exists>s' r logs. s' = (if sseTransport HttpFirst then HttpOnly else SseOnly) \<and>
         \<not> shouldAttemptFallback s' \<and> transportOf s' \<noteq> transportOf HttpFirst \<and>
         connectToRemoteServer ?env (Suc 0) s' (insert REASON_TRANSPORT_FALLBACK {}) = (r, logs) \<and>
         connectToRemoteServer ?env 0 HttpFirst {} =
           (r, [UsingStrategy HttpFirst, ReceivedError (errorMessage e), Reconnecting REASON_TRANSPORT_FALLBACK] @ logs) \<and>
         fallbacks logs = 0 \<and> set (strategiesTried logs) \<subseteq> {s'} \<and>
         (\<forall>e'. attempt ?env (Suc 0) (transportOf s') = Some e' \<and> \<not> unauthorizedError e' \<longrightarrow>
            r = Threw e' \<and> logs = [UsingStrategy s', ConnectionError]) \<and>
         (\<forall>e'. attempt ?env (Suc 0) (transportOf s') = Some e' \<and> unauthorizedError e' \<longrightarrow>
            (\<exists>rest. logs = UsingStrategy s' # AuthenticationRequired # rest))) \<and>
      fallbacks (snd (connectToRemoteServer ?env 0 HttpFirst {})) = 1 \<and>
      AlreadyAttempted REASON_TRANSPORT_FALLBACK \<notin> set (snd (connectToRemoteServer ?env 0 HttpFirst {}))"
    by (rule conjunct1)
  with pre obtain r logs where
    c: "connectToRemoteServer ?env 0 HttpFirst {} =
         (r, [UsingStrategy HttpFirst, ReceivedError (errorMessage ?e), Reconnecting REASON_TRANSPORT_FALLBACK] @ logs)"
    and r: "\<forall>e'. attempt ?env (Suc 0) (transportOf SseOnly) = Some e' \<and> \<not> unauthorizedError e' \<longrightarrow>
            r = Threw e' \<and> logs = [UsingStrategy SseOnly, ConnectionError]"
    by (auto simp: sseTransport_def)
  from r b have "r = Threw ?e \<and> logs = [UsingStrategy SseOnly, ConnectionError]" by blast
  with c show ?thesis by simp
qed

lemma only_strategy_authorizes:
  "fst (connectToRemoteServer (scripted [Some (OtherError ''404 Unauthorized'')]) 0 SseOnly {}) =
     Connected SSEClientTransport"
proof -
  let ?env = "scripted [Some (OtherError ''404 Unauthorized'')]"
  let ?e = "OtherError ''404 Unauthorized''"
  have a: "attempt ?env 0 (transportOf SseOnly) = Some ?e" by (simp add: scripted_def)
  have nf: "\<not> (shouldAttemptFallback SseOnly \<and> fallbackError ?e)" by (simp add: shouldAttemptFallback_def)
  have u: "unauthorizedError ?e" by simp
  have au: "authorize ?env 0 = Authorized" by (simp add: scripted_def)
  have b: "attempt ?env (Suc 0) (transportOf SseOnly) = None" by (simp add: scripted_def)
  show ?thesis
    using connect_auth [OF a nf u au, of "{}"] connect_connected [OF b, of "{REASON_AUTH_NEEDED}"]
    by (simp add: transportOf_def sseTransport_def)
qed

text \<open>
  The retry is a run with a \<open>*-only\<close> strategy like any other: where its attempt fails
  with an error whose message contains \<open>Unauthorized\<close>, the authorization runs and the
  next attempt connects.
\<close>

lemma retry_authorizes:
  "connectToRemoteServer (scripted [Some (OtherError ''HTTP 405''), Some (OtherError ''404 Unauthorized'')])
      0 HttpFirst {} =
     (Connected SSEClientTransport,
      [UsingStrategy HttpFirst, ReceivedError ''HTTP 405'', Reconnecting REASON_TRANSPORT_FALLBACK,
       UsingStrategy SseOnly, AuthenticationRequired, Reconnecting REASON_AUTH_NEEDED,
       UsingStrategy SseOnly, ConnectedUsing SSEClientTransport])"
  by code_simp

text \<open>
  The claim as it stands fails on that run: the fallback is recorded when the attempt
  over SSE fails with the second \<open>HTTP 405\<close>, and what is thrown is that error, not
  \<open>Already attempted transport fallback. Giving up.\<close> And with the strategy \<open>sse-only\<close>
  an error with the message \<open>404 Unauthorized\<close> is not thrown again: the authorization
  runs and the next attempt connects.
\<close>

theorem transport_fallback_counterexample:
  "fst (connectToRemoteServer (scripted [Some (OtherError ''HTTP 405''), Some (OtherError ''HTTP 405'')]) 0 HttpFirst {})
     = Threw (OtherError ''HTTP 405'') \<and>
   fst (connectToRemoteServer (scripted [Some (OtherError ''HTTP 405''), Some (OtherError ''HTTP 405'')]) 0 HttpFirst {})
     \<noteq> Threw (OtherError ''Already attempted transport fallback. Giving up.'') \<and>
   strategiesTried (snd (connectToRemoteServer
      (scripted [Some (OtherError ''HTTP 405''), Some (OtherError ''HTTP 405'')]) 0 HttpFirst {})) = [HttpFirst, SseOnly] \<and>
   fallbackError (OtherError ''404 Unauthorized'') \<and>
   fst (connectToRemoteServer (scripted [Some (OtherError ''404 Unauthorized'')]) 0 SseOnly {}) =
     Connected SSEClientTransport"
proof -
  let ?env = "scripted [Some (OtherError ''HTTP 405''), Some (OtherError ''HTTP 405'')]"
  let ?e = "OtherError ''HTTP 405''"
  have a: "attempt ?env 0 (transportOf HttpFirst) = Some ?e"
    by (simp add: scripted_def)
  have fe: "fallbackError ?e" by (simp add: fallbackError_def)
  have b: "attempt ?env (Suc 0) (transportOf SseOnly) = Some ?e" "\<not> unauthorizedError ?e"
    by (simp_all add: scripted_def)
  have inner: "connectToRemoteServer ?env (Suc 0) SseOnly {REASON_TRANSPORT_FALLBACK} =
      (Threw ?e, [UsingStrategy SseOnly, ConnectionError])"
    using b by (intro connect_rethrown) (simp_all add: shouldAttemptFallback_def)
  have "connectToRemoteServer ?env 0 HttpFirst {} =
      (Threw ?e, [UsingStrategy HttpFirst, ReceivedError ''HTTP 405'', Reconnecting REASON_TRANSPORT_FALLBACK,
                  UsingStrategy SseOnly, ConnectionError])"
    using connect_fallback [OF a _ fe, of "{}"] inner
    by (simp add: shouldAttemptFallback_def sseTransport_def)
  moreover have "fallbackError (OtherError ''404 Unauthorized'')"
    by (simp add: fallbackError_def)
  ultimately show ?thesis using only_strategy_authorizes by simp
qed

section \<open>Facts about the credential store\<close>











section \<open>Facts about the classical OAuth provider\<close>

lemma saveTokens_cases:
  "saveTokens p env w t =
     (case mkdir (files w) of
        Some e \<Rightarrow> (Throws (StoreFailed e), w)
      | None \<Rightarrow>
          (case writeFile (files w) of
             Some e \<Rightarrow> (Throws (StoreFailed e), w)
           | None \<Rightarrow>
               (Returns (),
                w\<lparr>files := (files w)\<lparr>readFile := (readFile (files w))
                     (getConfigFilePath (files w) (serverUrlHash p) ''tokens.json'' :=
                        Inr (JSON_stringify env (tokensJson t)))\<rparr>\<rparr>)))"
  by (simp add: saveTokens_def writeJsonFile_def ensureConfigDir_def split: option.splits)




lemma saveTokens_settles: "fst (saveTokens p env w t) \<noteq> NeverSettles"
  by (auto simp: saveTokens_cases split: option.splits)










lemma stringifyAt_example:
  "stringifyAt 0 (JObject [(''a'', JArray [JNumber 1, JNull]), (''b'', JString ''x'')]) =
     join [newline]
       [''{'',
        ''  '' @ [quote] @ ''a'' @ [quote] @ '': ['',
        ''    1,'',
        ''    null'',
        ''  ],'',
        ''  '' @ [quote] @ ''b'' @ [quote] @ '': '' @ [quote] @ ''x'' @ [quote],
        ''}'']"
  by code_simp



subsection \<open>The decision chain of getValidAccessToken\<close>


























section \<open>Facts about the endpoint discovery\<close>

lemma authServerStep_cases:
  "authServerStep env x =
     (case fetchedJson env x of
        None \<Rightarrow> None
      | Some metadata \<Rightarrow>
          (case (member metadata ''authorization_endpoint'', member metadata ''token_endpoint'') of
             (Some a, Some t) \<Rightarrow> if jsTruthy a \<and> jsTruthy t then Some (a, t) else None
           | _ \<Rightarrow> None))"
  by (auto simp: authServerStep_def authServerStep_try_def fetchedJson_def endpointsOf_def member_def
      split: option.splits sum.splits json.splits)

lemma resourceStep_cases:
  "resourceStep env u =
     (case fetchedJson env u of
        None \<Rightarrow> None
      | Some resourceMetadata \<Rightarrow>
          (case firstAuthorizationServer env resourceMetadata of
             Inr (Some v) \<Rightarrow>
               (case URL_withPathname env v ''/.well-known/oauth-authorization-server'' of
                  None \<Rightarrow> None
                | Some x \<Rightarrow> authServerStep env x)
           | _ \<Rightarrow> None))"
  by (auto simp: resourceStep_def resourceStep_try_def fetchedJson_def
      split: option.splits sum.splits)

lemma discover_try_cases:
  "(case discover_try env serverUrl headers of Inl error \<Rightarrow> None | Inr r \<Rightarrow> r) =
     (case resourceMetadataUrlOf env serverUrl headers of None \<Rightarrow> None | Some u \<Rightarrow> resourceStep env u)"
  by (auto simp: discover_try_def resourceMetadataUrlOf_def truthy_def split: option.splits)

lemma discoverOAuthEndpoints_cases:
  "discoverOAuthEndpoints env serverUrl headers =
     (case (case resourceMetadataUrlOf env serverUrl headers of None \<Rightarrow> None | Some u \<Rightarrow> resourceStep env u) of
        Some endpoints \<Rightarrow> Inr endpoints
      | None \<Rightarrow> (case URL_origin env serverUrl of
                   None \<Rightarrow> Inl UrlTypeError
                 | Some origin \<Rightarrow> Inr (fallbackEndpoints origin)))"
  unfolding discover_try_cases [symmetric]
  by (auto simp: discoverOAuthEndpoints_def split: sum.splits option.splits)

lemma firstAuthorizationServer_missing:
  assumes "member md ''authorization_servers'' = None \<or>
      member md ''authorization_servers'' = Some JNull \<or>
      member md ''authorization_servers'' = Some (JArray [])"
  shows "firstAuthorizationServer env md \<noteq> Inr (Some v)"
  using assms
  by (auto simp: firstAuthorizationServer_def authorizationServersOf_def lengthOf_def positive_def
      split: json.splits)

lemma firstAuthorizationServer_array:
  assumes "member md ''authorization_servers'' = Some (JArray (s # others))"
  shows "firstAuthorizationServer env md = Inr (Some (Some s))"
proof -
  from assms obtain members where md: "md = JObject members"
    by (cases md) (simp_all add: member_def)
  from assms show ?thesis
    unfolding md
    by (simp add: firstAuthorizationServer_def authorizationServersOf_def lengthOf_def positive_def firstOf_def)
qed

lemma resourceStep_missing:
  assumes "fetchedJson env u = Some md"
    and "member md ''authorization_servers'' = None \<or>
      member md ''authorization_servers'' = Some JNull \<or>
      member md ''authorization_servers'' = Some (JArray [])"
  shows "resourceStep env u = None"
  using assms(1) firstAuthorizationServer_missing [OF assms(2), of env]
  by (auto simp: resourceStep_cases split: sum.splits option.splits)

lemma resourceStep_array:
  assumes "fetchedJson env u = Some md"
    and "member md ''authorization_servers'' = Some (JArray (s # others))"
  shows "resourceStep env u =
     (case URL_withPathname env (Some s) ''/.well-known/oauth-authorization-server'' of
        None \<Rightarrow> None
      | Some x \<Rightarrow> authServerStep env x)"
  using assms(1) by (simp add: resourceStep_cases firstAuthorizationServer_array [OF assms(2)])

lemma authServerStep_Some:
  "authServerStep env x = Some e \<Longrightarrow>
     \<exists>metadata. fetchedJson env x = Some metadata \<and>
       member metadata ''authorization_endpoint'' = Some (fst e) \<and>
       member metadata ''token_endpoint'' = Some (snd e) \<and> jsTruthy (fst e) \<and> jsTruthy (snd e)"
  by (auto simp: authServerStep_cases split: option.splits if_splits)

lemma resourceStep_Some:
  "resourceStep env u = Some e \<Longrightarrow> \<exists>x. authServerStep env x = Some e"
  by (auto simp: resourceStep_cases split: option.splits sum.splits)

text \<open>
  Claim C5. For a server URL that \<open>new URL\<close> accepts, \<open>discoverOAuthEndpoints\<close> never
  throws: it returns the pair \<open><origin>/oauth/authorize\<close>, \<open><origin>/oauth/token\<close> or
  the two endpoints that a fetched metadata document advertises. It returns the
  fallback pair whenever a step fails: the first request throws; the response is not a
  401 or its \<open>WWW-Authenticate\<close> header names no resource metadata; the resource
  metadata cannot be fetched; its \<open>authorization_servers\<close> is missing, \<open>null\<close> or
  empty; \<open>new URL\<close> rejects the first authorization server; the metadata of the
  authorization server cannot be fetched; or it lacks an endpoint. Where no step fails,
  it returns the advertised endpoints.
\<close>

theorem discoverOAuthEndpoints_total:
  "URL_origin env serverUrl = Some origin \<Longrightarrow>
     (\<exists>endpoints. discoverOAuthEndpoints env serverUrl headers = Inr endpoints \<and>
        (endpoints = fallbackEndpoints origin \<or>
         (\<exists>url metadata. fetchedJson env url = Some metadata \<and>
            member metadata ''authorization_endpoint'' = Some (fst endpoints) \<and>
            member metadata ''token_endpoint'' = Some (snd endpoints) \<and>
            jsTruthy (fst endpoints) \<and> jsTruthy (snd endpoints)))) \<and>
     (fetchGet env serverUrl (withAccept headers) = None \<longrightarrow>
        discoverOAuthEndpoints env serverUrl headers = Inr (fallbackEndpoints origin)) \<and>
     (\<forall>r. fetchGet env serverUrl (withAccept headers) = Some r \<and>
        (httpStatus r \<noteq> 401 \<or> Option.bind (wwwAuthenticate r) parseWWWAuthenticate = None) \<longrightarrow>
        discoverOAuthEndpoints env serverUrl headers = Inr (fallbackEndpoints origin)) \<and>
     (\<forall>u. resourceMetadataUrlOf env serverUrl headers = Some u \<and> fetchedJson env u = None \<longrightarrow>
        discoverOAuthEndpoints env serverUrl headers = Inr (fallbackEndpoints origin)) \<and>
     (\<forall>u md. resourceMetadataUrlOf env serverUrl headers = Some u \<and> fetchedJson env u = Some md \<and>
        (member md ''authorization_servers'' = None \<or>
         member md ''authorization_servers'' = Some JNull \<or>
         member md ''authorization_servers'' = Some (JArray [])) \<longrightarrow>
        discoverOAuthEndpoints env serverUrl headers = Inr (fallbackEndpoints origin)) \<and>
     (\<forall>u md s others. resourceMetadataUrlOf env serverUrl headers = Some u \<and> fetchedJson env u = Some md \<and>
        member md ''authorization_servers'' = Some (JArray (s # others)) \<and>
        URL_withPathname env (Some s) ''/.well-known/oauth-authorization-server'' = None \<longrightarrow>
        discoverOAuthEndpoints env serverUrl headers = Inr (fallbackEndpoints origin)) \<and>
     (\<forall>u md s others x. resourceMetadataUrlOf env serverUrl headers = Some u \<and> fetchedJson env u = Some md \<and>
        member md ''authorization_servers'' = Some (JArray (s # others)) \<and>
        URL_withPathname env (Some s) ''/.well-known/oauth-authorization-server'' = Some x \<and>
        fetchedJson env x = None \<longrightarrow>
        discoverOAuthEndpoints env serverUrl headers = Inr (fallbackEndpoints origin)) \<and>
     (\<forall>u md s others x metadata. resourceMetadataUrlOf env serverUrl headers = Some u \<and>
        fetchedJson env u = Some md \<and>
        member md ''authorization_servers'' = Some (JArray (s # others)) \<and>
        URL_withPathname env (Some s) ''/.well-known/oauth-authorization-server'' = Some x \<and>
        fetchedJson env x = Some metadata \<and>
        (member metadata ''authorization_endpoint'' = None \<or> member metadata ''token_endpoint'' = None) \<longrightarrow>
        discoverOAuthEndpoints env serverUrl headers = Inr (fallbackEndpoints origin)) \<and>
     (\<forall>u md s others x metadata a t. resourceMetadataUrlOf env serverUrl headers = Some u \<and>
        fetchedJson env u = Some md \<and>
        member md ''authorization_servers'' = Some (JArray (s # others)) \<and>
        URL_withPathname env (Some s) ''/.well-known/oauth-authorization-server'' = Some x \<and>
        fetchedJson env x = Some metadata \<and>
        member metadata ''authorization_endpoint'' = Some a \<and> member metadata ''token_endpoint'' = Some t \<longrightarrow>
        discoverOAuthEndpoints env serverUrl headers =
          (if jsTruthy a \<and> jsTruthy t then Inr (a, t) else Inr (fallbackEndpoints origin)))"
proof -
  assume o: "URL_origin env serverUrl = Some origin"
  let ?chain = "case resourceMetadataUrlOf env serverUrl headers of None \<Rightarrow> None | Some u \<Rightarrow> resourceStep env u"
  have fb: "discoverOAuthEndpoints env serverUrl headers = Inr (fallbackEndpoints origin)"
    if "?chain = None"
    using that o by (simp add: discoverOAuthEndpoints_cases)
  have ok: "discoverOAuthEndpoints env serverUrl headers = Inr e"
    if "?chain = Some e" for e
    using that by (simp add: discoverOAuthEndpoints_cases)
  have 1: "\<exists>endpoints. discoverOAuthEndpoints env serverUrl headers = Inr endpoints \<and>
        (endpoints = fallbackEndpoints origin \<or>
         (\<exists>url metadata. fetchedJson env url = Some metadata \<and>
            member metadata ''authorization_endpoint'' = Some (fst endpoints) \<and>
            member metadata ''token_endpoint'' = Some (snd endpoints) \<and>
            jsTruthy (fst endpoints) \<and> jsTruthy (snd endpoints)))"
  proof (cases ?chain)
    case None
    from fb [OF None] show ?thesis by simp
  next
    case (Some e)
    then obtain u where "resourceStep env u = Some e" by (auto split: option.splits)
    then obtain x where "authServerStep env x = Some e" using resourceStep_Some by blast
    from authServerStep_Some [OF this] ok [OF Some] show ?thesis by blast
  qed
  have 2: "fetchGet env serverUrl (withAccept headers) = None \<longrightarrow>
        discoverOAuthEndpoints env serverUrl headers = Inr (fallbackEndpoints origin)"
    by (intro impI fb) (simp add: resourceMetadataUrlOf_def)
  have 3: "\<forall>r. fetchGet env serverUrl (withAccept headers) = Some r \<and>
        (httpStatus r \<noteq> 401 \<or> Option.bind (wwwAuthenticate r) parseWWWAuthenticate = None) \<longrightarrow>
        discoverOAuthEndpoints env serverUrl headers = Inr (fallbackEndpoints origin)"
    by (intro allI impI fb) (auto simp: resourceMetadataUrlOf_def)
  have 4: "\<forall>u. resourceMetadataUrlOf env serverUrl headers = Some u \<and> fetchedJson env u = None \<longrightarrow>
        discoverOAuthEndpoints env serverUrl headers = Inr (fallbackEndpoints origin)"
    by (intro allI impI fb) (simp add: resourceStep_cases)
  have 5: "\<forall>u md. resourceMetadataUrlOf env serverUrl headers = Some u \<and> fetchedJson env u = Some md \<and>
        (member md ''authorization_servers'' = None \<or>
         member md ''authorization_servers'' = Some JNull \<or>
         member md ''authorization_servers'' = Some (JArray [])) \<longrightarrow>
        discoverOAuthEndpoints env serverUrl headers = Inr (fallbackEndpoints origin)"
  proof (intro allI impI fb)
    fix u md
    assume h: "resourceMetadataUrlOf env serverUrl headers = Some u \<and> fetchedJson env u = Some md \<and>
        (member md ''authorization_servers'' = None \<or>
         member md ''authorization_servers'' = Some JNull \<or>
         member md ''authorization_servers'' = Some (JArray []))"
    then have "resourceStep env u = None" by (intro resourceStep_missing [of env u md]) simp_all
    with h show "?chain = None" by simp
  qed
  have step: "?chain = (case URL_withPathname env (Some s) ''/.well-known/oauth-authorization-server'' of
        None \<Rightarrow> None
      | Some x \<Rightarrow> authServerStep env x)"
    if "resourceMetadataUrlOf env serverUrl headers = Some u" and "fetchedJson env u = Some md"
      and "member md ''authorization_servers'' = Some (JArray (s # others))" for u md s others
    using that(1) resourceStep_array [OF that(2) that(3)] by simp
  have 6: "\<forall>u md s others. resourceMetadataUrlOf env serverUrl headers = Some u \<and> fetchedJson env u = Some md \<and>
        member md ''authorization_servers'' = Some (JArray (s # others)) \<and>
        URL_withPathname env (Some s) ''/.well-known/oauth-authorization-server'' = None \<longrightarrow>
        discoverOAuthEndpoints env serverUrl headers = Inr (fallbackEndpoints origin)"
  proof (intro allI impI fb)
    fix u md s others
    assume h: "resourceMetadataUrlOf env serverUrl headers = Some u \<and> fetchedJson env u = Some md \<and>
        member md ''authorization_servers'' = Some (JArray (s # others)) \<and>
        URL_withPathname env (Some s) ''/.well-known/oauth-authorization-server'' = None"
    then have "?chain = (case URL_withPathname env (Some s) ''/.well-known/oauth-authorization-server'' of
        None \<Rightarrow> None | Some x \<Rightarrow> authServerStep env x)"
      by (intro step [of u md s others]) simp_all
    with h show "?chain = None" by simp
  qed
  have 7: "\<forall>u md s others x. resourceMetadataUrlOf env serverUrl headers = Some u \<and> fetchedJson env u = Some md \<and>
        member md ''authorization_servers'' = Some (JArray (s # others)) \<and>
        URL_withPathname env (Some s) ''/.well-known/oauth-authorization-server'' = Some x \<and>
        fetchedJson env x = None \<longrightarrow>
        discoverOAuthEndpoints env serverUrl headers = Inr (fallbackEndpoints origin)"
  proof (intro allI impI fb)
    fix u md s others x
    assume h: "resourceMetadataUrlOf env serverUrl headers = Some u \<and> fetchedJson env u = Some md \<and>
        member md ''authorization_servers'' = Some (JArray (s # others)) \<and>
        URL_withPathname env (Some s) ''/.well-known/oauth-authorization-server'' = Some x \<and>
        fetchedJson env x = None"
    then have "?chain = (case URL_withPathname env (Some s) ''/.well-known/oauth-authorization-server'' of
        None \<Rightarrow> None | Some x \<Rightarrow> authServerStep env x)"
      by (intro step [of u md s others]) simp_all
    with h show "?chain = None" by (simp add: authServerStep_cases)
  qed
  have 8: "\<forall>u md s others x metadata. resourceMetadataUrlOf env serverUrl headers = Some u \<and>
        fetchedJson env u = Some md \<and>
        member md ''authorization_servers'' = Some (JArray (s # others)) \<and>
        URL_withPathname env (Some s) ''/.well-known/oauth-authorization-server'' = Some x \<and>
        fetchedJson env x = Some metadata \<and>
        (member metadata ''authorization_endpoint'' = None \<or> member metadata ''token_endpoint'' = None) \<longrightarrow>
        discoverOAuthEndpoints env serverUrl headers = Inr (fallbackEndpoints origin)"
  proof (intro allI impI fb)
    fix u md s others x metadata
    assume h: "resourceMetadataUrlOf env serverUrl headers = Some u \<and>
        fetchedJson env u = Some md \<and>
        member md ''authorization_servers'' = Some (JArray (s # others)) \<and>
        URL_withPathname env (Some s) ''/.well-known/oauth-authorization-server'' = Some x \<and>
        fetchedJson env x = Some metadata \<and>
        (member metadata ''authorization_endpoint'' = None \<or> member metadata ''token_endpoint'' = None)"
    then have "?chain = (case URL_withPathname env (Some s) ''/.well-known/oauth-authorization-server'' of
        None \<Rightarrow> None | Some x \<Rightarrow> authServerStep env x)"
      by (intro step [of u md s others]) simp_all
    with h show "?chain = None" by (auto simp: authServerStep_cases split: option.splits)
  qed
  have 9: "\<forall>u md s others x metadata a t. resourceMetadataUrlOf env serverUrl headers = Some u \<and>
        fetchedJson env u = Some md \<and>
        member md ''authorization_servers'' = Some (JArray (s # others)) \<and>
        URL_withPathname env (Some s) ''/.well-known/oauth-authorization-server'' = Some x \<and>
        fetchedJson env x = Some metadata \<and>
        member metadata ''authorization_endpoint'' = Some a \<and> member metadata ''token_endpoint'' = Some t \<longrightarrow>
        discoverOAuthEndpoints env serverUrl headers =
          (if jsTruthy a \<and> jsTruthy t then Inr (a, t) else Inr (fallbackEndpoints origin))"
  proof (intro allI impI)
    fix u md s others x metadata a t
    assume h: "resourceMetadataUrlOf env serverUrl headers = Some u \<and>
        fetchedJson env u = Some md \<and>
        member md ''authorization_servers'' = Some (JArray (s # others)) \<and>
        URL_withPathname env (Some s) ''/.well-known/oauth-authorization-server'' = Some x \<and>
        fetchedJson env x = Some metadata \<and>
        member metadata ''authorization_endpoint'' = Some a \<and> member metadata ''token_endpoint'' = Some t"
    then have "?chain = (case URL_withPathname env (Some s) ''/.well-known/oauth-authorization-server'' of
        None \<Rightarrow> None | Some x \<Rightarrow> authServerStep env x)"
      by (intro step [of u md s others]) simp_all
    with h have c: "?chain = (if jsTruthy a \<and> jsTruthy t then Some (a, t) else None)"
      by (simp add: authServerStep_cases)
    show "discoverOAuthEndpoints env serverUrl headers =
          (if jsTruthy a \<and> jsTruthy t then Inr (a, t) else Inr (fallbackEndpoints origin))"
    proof (cases "jsTruthy a \<and> jsTruthy t")
      case True
      with c have "?chain = Some (a, t)" by simp
      from ok [OF this] True show ?thesis by simp
    next
      case False
      with c have "?chain = None" by simp
      from fb [OF this] False show ?thesis by auto
    qed
  qed
  from 1 2 3 4 5 6 7 8 9 show ?thesis by (intro conjI)
qed

lemma advertising_steps:
  "resourceMetadataUrlOf (advertising servers) ''https://mcp.example.com/sse'' [] =
     Some ''https://mcp.example.com/meta''"
  "fetchedJson (advertising servers) ''https://mcp.example.com/meta'' =
     Some (JObject [(''authorization_servers'', servers)])"
  "fetchedJson (advertising servers) ''https://auth.example.com/.well-known/oauth-authorization-server'' =
     Some advertised"
  "member (JObject [(''authorization_servers'', servers)]) ''authorization_servers'' = Some servers"
  "member advertised ''authorization_endpoint'' = Some (JString ''https://auth.example.com/authorize'')"
  "member advertised ''token_endpoint'' = Some (JString ''https://auth.example.com/token'')"
  by (simp_all add: resourceMetadataUrlOf_def fetchedJson_def advertising_def withAccept_def challenge_def
      quote_def responseOk_def member_def advertised_def)

text \<open>
  The theorem where the first request throws, and where every step succeeds with the
  authorization server \<open>https://auth.example.com\<close>.
\<close>

theorem discoverOAuthEndpoints_total_witness:
  "discoverOAuthEndpoints offline ''https://mcp.example.com/sse'' [] =
     Inr (JString ''https://mcp.example.com/oauth/authorize'', JString ''https://mcp.example.com/oauth/token'') \<and>
   discoverOAuthEndpoints (advertising (JArray [JString ''https://auth.example.com''])) ''https://mcp.example.com/sse'' [] =
     Inr (JString ''https://auth.example.com/authorize'', JString ''https://auth.example.com/token'')"
proof -
  have o: "URL_origin offline ''https://mcp.example.com/sse'' = Some ''https://mcp.example.com''"
    by (simp add: offline_def)
  have f: "fetchGet offline ''https://mcp.example.com/sse'' (withAccept []) = None"
    by (simp add: offline_def)
  from discoverOAuthEndpoints_total [OF o, of "[]"] f
  have "discoverOAuthEndpoints offline ''https://mcp.example.com/sse'' [] =
      Inr (fallbackEndpoints ''https://mcp.example.com'')"
    by (elim conjE) simp
  then have 1: "discoverOAuthEndpoints offline ''https://mcp.example.com/sse'' [] =
     Inr (JString ''https://mcp.example.com/oauth/authorize'', JString ''https://mcp.example.com/oauth/token'')"
    by (simp add: fallbackEndpoints_def)
  let ?env = "advertising (JArray [JString ''https://auth.example.com''])"
  have o': "URL_origin ?env ''https://mcp.example.com/sse'' = Some ''https://mcp.example.com''"
    by (simp add: advertising_def)
  have u: "URL_withPathname ?env (Some (JString ''https://auth.example.com''))
      ''/.well-known/oauth-authorization-server'' =
      Some ''https://auth.example.com/.well-known/oauth-authorization-server''"
    by (simp add: advertising_def)
  have pre: "resourceMetadataUrlOf ?env ''https://mcp.example.com/sse'' [] = Some ''https://mcp.example.com/meta'' \<and>
      fetchedJson ?env ''https://mcp.example.com/meta'' =
        Some (JObject [(''authorization_servers'', JArray [JString ''https://auth.example.com''])]) \<and>
      member (JObject [(''authorization_servers'', JArray [JString ''https://auth.example.com''])])
        ''authorization_servers'' = Some (JArray (JString ''https://auth.example.com'' # [])) \<and>
      URL_withPathname ?env (Some (JString ''https://auth.example.com''))
        ''/.well-known/oauth-authorization-server'' =
        Some ''https://auth.example.com/.well-known/oauth-authorization-server'' \<and>
      fetchedJson ?env ''https://auth.example.com/.well-known/oauth-authorization-server'' = Some advertised \<and>
      member advertised ''authorization_endpoint'' = Some (JString ''https://auth.example.com/authorize'') \<and>
      member advertised ''token_endpoint'' = Some (JString ''https://auth.example.com/token'')"
    using u by (simp add: advertising_steps)
  from discoverOAuthEndpoints_total [OF o', of "[]"]
  have "\<forall>u md s others x metadata a t. resourceMetadataUrlOf ?env ''https://mcp.example.com/sse'' [] = Some u \<and>
        fetchedJson ?env u = Some md \<and>
        member md ''authorization_servers'' = Some (JArray (s # others)) \<and>
        URL_withPathname ?env (Some s) ''/.well-known/oauth-authorization-server'' = Some x \<and>
        fetchedJson ?env x = Some metadata \<and>
        member metadata ''authorization_endpoint'' = Some a \<and> member metadata ''token_endpoint'' = Some t \<longrightarrow>
        discoverOAuthEndpoints ?env ''https://mcp.example.com/sse'' [] =
          (if jsTruthy a \<and> jsTruthy t then Inr (a, t) else Inr (fallbackEndpoints ''https://mcp.example.com''))"
    by (elim conjE)
  from this [rule_format, OF pre]
  have 2: "discoverOAuthEndpoints ?env ''https://mcp.example.com/sse'' [] =
     Inr (JString ''https://auth.example.com/authorize'', JString ''https://auth.example.com/token'')"
    by simp
  from 1 2 show ?thesis by (rule conjI)
qed

text \<open>
  \<open>new URL\<close> takes whatever the first element is: where the authorization server is
  wrapped in a further array, or \<open>authorization_servers\<close> is an object with a positive
  \<open>length\<close> and a member \<open>0\<close>, the discovery goes on and returns the advertised
  endpoints; an object without a positive \<open>length\<close> leads to the fallback.
\<close>

lemma discovery_of_odd_servers:
  "discoverOAuthEndpoints (advertising (JArray [JArray [JString ''https://auth.example.com'']]))
      ''https://mcp.example.com/sse'' [] =
     Inr (JString ''https://auth.example.com/authorize'', JString ''https://auth.example.com/token'')"
  "discoverOAuthEndpoints
      (advertising (JObject [(''length'', JNumber 1), (''0'', JString ''https://auth.example.com'')]))
      ''https://mcp.example.com/sse'' [] =
     Inr (JString ''https://auth.example.com/authorize'', JString ''https://auth.example.com/token'')"
  "discoverOAuthEndpoints
      (advertising (JObject [(''length'', JString ''1''), (''0'', JString ''https://auth.example.com'')]))
      ''https://mcp.example.com/sse'' [] =
     Inr (JString ''https://auth.example.com/authorize'', JString ''https://auth.example.com/token'')"
  "discoverOAuthEndpoints (advertising (JObject [(''0'', JString ''https://auth.example.com'')]))
      ''https://mcp.example.com/sse'' [] =
     Inr (JString ''https://mcp.example.com/oauth/authorize'', JString ''https://mcp.example.com/oauth/token'')"
  by code_simp+
end
